theory Spec2Isabelle
  imports Complex_Main "HOL-Library.Multiset"
begin

section \<open>JavaScript values used by the server and the migration script\<close>

text \<open>
  A JavaScript number is a double. The model keeps the finite values as exact rationals
  and keeps the three special values the code can meet apart: \<open>NaN\<close> (a failed parse)
  and the two infinities. Minus zero is the rational 0. A parsed literal too small or too
  large for a double becomes 0 or an infinity, as in the code (\<open>to_double\<close>); the
  rounding of the 53-bit mantissa of the other values is not modelled. Below \<open>2^53\<close>
  every whole number is a double, so there a parsed whole number is the code's; from
  \<open>2^53\<close> on the code rounds and the model does not.
\<close>

datatype jsnum = Num rat | NaN | PosInf | NegInf

text \<open>ToBoolean on a number: false for 0, -0 and NaN.\<close>

fun truthy_num :: "jsnum \<Rightarrow> bool" where
  "truthy_num (Num r) = (r \<noteq> 0)"
| "truthy_num NaN = False"
| "truthy_num PosInf = True"
| "truthy_num NegInf = True"

text \<open>\<open>a || b\<close> on numbers, and \<open>a || null\<close> (\<open>None\<close> is null).\<close>

definition or_num :: "jsnum \<Rightarrow> jsnum \<Rightarrow> jsnum" where
  "or_num a b = (if truthy_num a then a else b)"

definition or_null :: "jsnum \<Rightarrow> jsnum option" where
  "or_null a = (if truthy_num a then Some a else None)"

text \<open>
  A property read off the row object is a string or \<open>undefined\<close> (\<open>None\<close>).
  \<open>s || ''\<close> yields the empty string for \<open>undefined\<close> and for the empty string.
\<close>

definition or_str :: "string option \<Rightarrow> string \<Rightarrow> string" where
  "or_str v d = (case v of None \<Rightarrow> d | Some s \<Rightarrow> if s = [] then d else s)"

subsection \<open>parseInt and parseFloat\<close>

text \<open>
  A string is the UTF-8 encoding of the JavaScript string, one \<open>char\<close> per byte. The
  white space both functions skip is StrWhiteSpaceChar: TAB, LF, VT, FF, CR, SP and, in
  UTF-8, U+00A0 (C2 A0), U+1680 (E1 9A 80), U+2000 to U+200A (E2 80 80 to E2 80 8A),
  U+2028, U+2029 and U+202F (E2 80 A8, A9, AF), U+205F (E2 81 9F), U+3000 (E3 80 80)
  and U+FEFF (EF BB BF). \<open>space_len\<close> is the number of bytes of the white-space
  character a string starts with, 0 when it starts with none.
\<close>

definition space_len :: "string \<Rightarrow> nat" where
  "space_len s =
     (case map of_char (take 3 s) :: nat list of
        [] \<Rightarrow> 0
      | b1 # bs \<Rightarrow>
          if b1 \<in> {9, 10, 11, 12, 13, 32} then 1
          else
            (case bs of
               [] \<Rightarrow> 0
             | b2 # bs' \<Rightarrow>
                 if b1 = 0xC2 \<and> b2 = 0xA0 then 2
                 else
                   (case bs' of
                      [] \<Rightarrow> 0
                    | b3 # _ \<Rightarrow>
                        if (b1 = 0xE1 \<and> b2 = 0x9A \<and> b3 = 0x80) \<or>
                           (b1 = 0xE2 \<and> b2 = 0x80 \<and> 0x80 \<le> b3 \<and> b3 \<le> 0x8A) \<or>
                           (b1 = 0xE2 \<and> b2 = 0x80 \<and> b3 \<in> {0xA8, 0xA9, 0xAF}) \<or>
                           (b1 = 0xE2 \<and> b2 = 0x81 \<and> b3 = 0x9F) \<or>
                           (b1 = 0xE3 \<and> b2 = 0x80 \<and> b3 = 0x80) \<or>
                           (b1 = 0xEF \<and> b2 = 0xBB \<and> b3 = 0xBF)
                        then 3 else 0)))"

function skip_space :: "string \<Rightarrow> string" where
  "skip_space s = (if space_len s = 0 then s else skip_space (drop (space_len s) s))"
  by pat_completeness auto
termination
proof (relation "measure length")
  show "wf (measure length)" by simp
next
  fix s :: string
  assume "space_len s \<noteq> 0"
  then have "s \<noteq> []" by (auto simp: space_len_def)
  with \<open>space_len s \<noteq> 0\<close> show "(drop (space_len s) s, s) \<in> measure length" by simp
qed

declare skip_space.simps [simp del]

definition digit_of :: "char \<Rightarrow> nat option" where
  "digit_of c =
     (let n = (of_char c :: nat) in
      if 48 \<le> n \<and> n \<le> 57 then Some (n - 48)
      else if 97 \<le> n \<and> n \<le> 122 then Some (n - 87)
      else if 65 \<le> n \<and> n \<le> 90 then Some (n - 55)
      else None)"

definition is_radix_digit :: "nat \<Rightarrow> char \<Rightarrow> bool" where
  "is_radix_digit R c = (case digit_of c of None \<Rightarrow> False | Some d \<Rightarrow> d < R)"

definition digits_value :: "nat \<Rightarrow> string \<Rightarrow> nat" where
  "digits_value R ds = foldl (\<lambda>acc c. acc * R + (case digit_of c of None \<Rightarrow> 0 | Some d \<Rightarrow> d)) 0 ds"

definition strip_sign :: "string \<Rightarrow> bool \<times> string" where
  "strip_sign s =
     (case s of
        [] \<Rightarrow> (False, [])
      | c # cs \<Rightarrow> if c = CHR ''-'' then (True, cs) else if c = CHR ''+'' then (False, cs) else (False, s))"

definition signed :: "bool \<Rightarrow> rat \<Rightarrow> rat" where
  "signed neg r = (if neg then - r else r)"

text \<open>
  The number value of an exact result, as far as zero and the infinities go. Half the
  least positive double is \<open>2^-1075\<close>: at or below it (the tie goes to the even
  neighbour, 0) the value rounds to 0. The largest double is \<open>2^1024 - 2^971\<close>: from
  \<open>2^1024 - 2^970\<close> on the value rounds to Infinity. In between the value is kept exact.
\<close>

definition to_double :: "rat \<Rightarrow> jsnum" where
  "to_double r =
     (if \<bar>r\<bar> \<le> 1 / 2 ^ 1075 then Num 0
      else if 2 ^ 1024 - 2 ^ 970 \<le> \<bar>r\<bar> then (if r < 0 then NegInf else PosInf)
      else Num r)"

text \<open>\<open>parseInt(v)\<close> with no radix argument: \<open>undefined\<close> is read as the string
  undefined; a 0x or 0X prefix switches to radix 16; the longest run of digits is read;
  no digit at all gives NaN.\<close>

definition parseInt :: "string option \<Rightarrow> jsnum" where
  "parseInt v =
     (let s = skip_space (case v of None \<Rightarrow> ''undefined'' | Some t \<Rightarrow> t);
          (neg, s1) = strip_sign s;
          hex = (take 2 s1 = ''0x'' \<or> take 2 s1 = ''0X'');
          R = (if hex then 16 else 10);
          s2 = (if hex then drop 2 s1 else s1);
          z = takeWhile (is_radix_digit R) s2
      in if z = [] then NaN else to_double (signed neg (of_nat (digits_value R z))))"

definition pow10 :: "int \<Rightarrow> rat" where
  "pow10 e = (if 0 \<le> e then 10 ^ nat e else 1 / 10 ^ nat (- e))"

text \<open>The exponent part of a decimal literal: e or E, an optional sign and at least
  one digit; anything else is not part of the number.\<close>

definition exponent_part :: "string \<Rightarrow> int" where
  "exponent_part s =
     (case s of
        [] \<Rightarrow> 0
      | c # cs \<Rightarrow>
          if c = CHR ''e'' \<or> c = CHR ''E'' then
            (let (neg, ds) = strip_sign cs; z = takeWhile (is_radix_digit 10) ds
             in if z = [] then 0 else (if neg then - int (digits_value 10 z) else int (digits_value 10 z)))
          else 0)"

text \<open>\<open>parseFloat(v)\<close>: the longest prefix that is a StrDecimalLiteral.\<close>

definition parseFloat :: "string option \<Rightarrow> jsnum" where
  "parseFloat v =
     (let s = skip_space (case v of None \<Rightarrow> ''undefined'' | Some t \<Rightarrow> t);
          (neg, s1) = strip_sign s
      in if take 8 s1 = ''Infinity'' then (if neg then NegInf else PosInf)
         else
           (let ip = takeWhile (is_radix_digit 10) s1;
                r1 = dropWhile (is_radix_digit 10) s1;
                dot = (r1 \<noteq> [] \<and> hd r1 = CHR ''.'');
                fp = (if dot then takeWhile (is_radix_digit 10) (tl r1) else []);
                r2 = (if dot then dropWhile (is_radix_digit 10) (tl r1) else r1)
            in if ip = [] \<and> fp = [] then NaN
               else to_double (signed neg
                     ((of_nat (digits_value 10 ip) + of_nat (digits_value 10 fp) / 10 ^ length fp)
                        * pow10 (exponent_part r2)))))"

section \<open>CSV rows and their cleaning (\<open>processCSV\<close>)\<close>

text \<open>
  csv-parser hands each line to the \<open>data\<close> callback as an object from column header
  to cell text; a column the line lacks is \<open>undefined\<close>. The stream delivers its rows
  and then either \<open>end\<close> or \<open>error\<close> (with a message).
\<close>

type_synonym raw_row = "string \<rightharpoonup> string"

type_synonym error = string

type_synonym csv_stream = "raw_row list \<times> error option"

text \<open>The object literal \<open>cleanData\<close>; it is the same in server.js and in
  database/migrate_data.js.\<close>

record clean_row =
  objectid :: "jsnum option"
  st_rt_no :: string
  cty_code :: string
  district_no :: string
  seg_no :: string
  seg_lngth_feet :: jsnum
  fac_type :: string
  surf_type :: string
  lane_cnt :: jsnum
  total_width :: jsnum
  rough_indx :: jsnum
  frictn_coeff :: jsnum
  pvmnt_cond_rate :: string
  cur_aadt :: jsnum
  street_name :: string
  traf_rt_no :: string
  x_value_bgn :: jsnum
  y_value_bgn :: jsnum
  x_value_end :: jsnum
  y_value_end :: jsnum
  segment_miles :: jsnum
  lane_miles :: jsnum
  iri_rating_text :: string
  opi_rating_text :: string
  surface_year :: jsnum
  urban_rural :: string
  nhs_ind :: string

definition cleanData :: "raw_row \<Rightarrow> clean_row" where
  "cleanData data =
     \<lparr> objectid = or_null (parseInt (data ''OBJECTID'')),
       st_rt_no = or_str (data ''ST_RT_NO'') [],
       cty_code = or_str (data ''CTY_CODE'') [],
       district_no = or_str (data ''DISTRICT_NO'') [],
       seg_no = or_str (data ''SEG_NO'') [],
       seg_lngth_feet = or_num (parseFloat (data ''SEG_LNGTH_FEET'')) (Num 0),
       fac_type = or_str (data ''FAC_TYPE'') [],
       surf_type = or_str (data ''SURF_TYPE'') [],
       lane_cnt = or_num (parseInt (data ''LANE_CNT'')) (Num 0),
       total_width = or_num (parseFloat (data ''TOTAL_WIDTH'')) (Num 0),
       rough_indx = or_num (parseFloat (data ''ROUGH_INDX'')) (Num 0),
       frictn_coeff = or_num (parseFloat (data ''FRICTN_COEFF'')) (Num 0),
       pvmnt_cond_rate = or_str (data ''PVMNT_COND_RATE'') [],
       cur_aadt = or_num (parseInt (data ''CUR_AADT'')) (Num 0),
       street_name = or_str (data ''STREET_NAME'') [],
       traf_rt_no = or_str (data ''TRAF_RT_NO'') [],
       x_value_bgn = or_num (parseFloat (data ''X_VALUE_BGN'')) (Num 0),
       y_value_bgn = or_num (parseFloat (data ''Y_VALUE_BGN'')) (Num 0),
       x_value_end = or_num (parseFloat (data ''X_VALUE_END'')) (Num 0),
       y_value_end = or_num (parseFloat (data ''Y_VALUE_END'')) (Num 0),
       segment_miles = or_num (parseFloat (data ''SEGMENT_MILES'')) (Num 0),
       lane_miles = or_num (parseFloat (data ''LANE_MILES'')) (Num 0),
       iri_rating_text = or_str (data ''IRI_RATING_TEXT'') [],
       opi_rating_text = or_str (data ''OPI_RATING_TEXT'') [],
       surface_year = or_num (parseInt (data ''SURFACE_YEAR'')) (Num 0),
       urban_rural = or_str (data ''URBAN_RURAL'') [],
       nhs_ind = or_str (data ''NHS_IND'') [] \<rparr>"

text \<open>The columns of the literal by the conversion applied: \<open>parseFloat(..) || 0\<close>,
  \<open>parseInt(..) || 0\<close> and \<open>.. || ''\<close>, each with the property it fills.
  \<open>OBJECTID\<close> alone is \<open>parseInt(..) || null\<close>.\<close>

definition float_columns :: "(string \<times> (clean_row \<Rightarrow> jsnum)) list" where
  "float_columns =
     [(''SEG_LNGTH_FEET'', seg_lngth_feet), (''TOTAL_WIDTH'', total_width),
      (''ROUGH_INDX'', rough_indx), (''FRICTN_COEFF'', frictn_coeff),
      (''X_VALUE_BGN'', x_value_bgn), (''Y_VALUE_BGN'', y_value_bgn),
      (''X_VALUE_END'', x_value_end), (''Y_VALUE_END'', y_value_end),
      (''SEGMENT_MILES'', segment_miles), (''LANE_MILES'', lane_miles)]"

definition int_columns :: "(string \<times> (clean_row \<Rightarrow> jsnum)) list" where
  "int_columns =
     [(''LANE_CNT'', lane_cnt), (''CUR_AADT'', cur_aadt), (''SURFACE_YEAR'', surface_year)]"

definition string_columns :: "(string \<times> (clean_row \<Rightarrow> string)) list" where
  "string_columns =
     [(''ST_RT_NO'', st_rt_no), (''CTY_CODE'', cty_code), (''DISTRICT_NO'', district_no),
      (''SEG_NO'', seg_no), (''FAC_TYPE'', fac_type), (''SURF_TYPE'', surf_type),
      (''PVMNT_COND_RATE'', pvmnt_cond_rate), (''STREET_NAME'', street_name),
      (''TRAF_RT_NO'', traf_rt_no), (''IRI_RATING_TEXT'', iri_rating_text),
      (''OPI_RATING_TEXT'', opi_rating_text), (''URBAN_RURAL'', urban_rural),
      (''NHS_IND'', nhs_ind)]"

text \<open>server.js, \<open>processCSV\<close>: a cleaned row is pushed when its two begin coordinates
  are truthy.\<close>

definition server_keeps :: "clean_row \<Rightarrow> bool" where
  "server_keeps c = (truthy_num (x_value_bgn c) \<and> truthy_num (y_value_bgn c))"

definition server_processCSV :: "csv_stream \<Rightarrow> error + clean_row list" where
  "server_processCSV stream =
     (case stream of
        (rows, None) \<Rightarrow> Inr (filter server_keeps (map cleanData rows))
      | (rows, Some e) \<Rightarrow> Inl e)"

text \<open>database/migrate_data.js, \<open>processCSV\<close>: a cleaned row is pushed when all four
  coordinates are truthy.\<close>

definition migrate_keeps :: "clean_row \<Rightarrow> bool" where
  "migrate_keeps c =
     (truthy_num (x_value_bgn c) \<and> truthy_num (y_value_bgn c) \<and>
      truthy_num (x_value_end c) \<and> truthy_num (y_value_end c))"

definition migrate_processCSV :: "csv_stream \<Rightarrow> error + clean_row list" where
  "migrate_processCSV stream =
     (case stream of
        (rows, None) \<Rightarrow> Inr (filter migrate_keeps (map cleanData rows))
      | (rows, Some e) \<Rightarrow> Inl e)"

section \<open>The \<open>road_segments\<close> table and a client connection\<close>

text \<open>
  The migration script sends a 28th value, \<open>additional_attrs\<close>: the JSON text of an
  object with the keys below, each \<open>row.key || ''\<close>. A cleaned row has only two of these
  properties (\<open>nhs_ind\<close> and \<open>surface_year\<close>); every other one is \<open>undefined\<close>, so its
  entry is the empty string. The object is kept as its list of entries.
\<close>

datatype attr_val = AStr string | ANum jsnum

definition attr_keys :: "string list" where
  "attr_keys =
     [''bike_lane'', ''yr_built'', ''yr_resurf'', ''dir_ind'',
      ''park_lane'', ''divsr_type'', ''divsr_width'', ''cond_date'',
      ''frictn_indx'', ''frictn_date'', ''access_ctrl'', ''toll_code'',
      ''traf_rt_no_prefix'', ''traf_rt_no_suf'', ''bgn_desc'', ''end_desc'',
      ''maint_respon_ind'', ''nhs_ind'', ''tandem_trlr_trk'', ''access_tandem_trlr'',
      ''interst_netwrk_ind'', ''nhpn_ind'', ''norm_admin_bgn'', ''norm_traff_bgn'',
      ''norm_shld_bgn'', ''mapid'', ''nlf_id'', ''side_ind'',
      ''nlf_cntl_bgn'', ''nlf_cntl_end'', ''cum_offset_bgn_t1'', ''cum_offset_end_t1'',
      ''graphic_length'', ''key_update'', ''attr_update'', ''overall_pvmnt_idx'',
      ''seg_status'', ''pavmt_cycle'', ''drain_cycle'', ''gdrail_cycle'',
      ''district_special'', ''trt_type_netwrk'', ''pa_byway_ind'', ''street_name2'',
      ''traf_rt_no_prefix2'', ''traf_rt_no2'', ''traf_rt_no_suf2'', ''street_name3'',
      ''traf_rt_no_prefix3'', ''traf_rt_no3'', ''traf_rt_no_suf3'', ''trxn_flag'',
      ''route_dir'', ''bus_plan_netwrk'', ''exp_way_netwrk'', ''hpms_samp_cnt'',
      ''mile_point'', ''is_structure'', ''govt_lvl_ctrl'', ''hov_type'',
      ''hov_lanes'', ''par_seg_ind'', ''hpms_divsr_type'', ''iri_cur_flag'',
      ''drain_swt'', ''gdrail_swt'', ''pavmt_swt'', ''shld_cond_status'',
      ''fed_aid_prim_ind'', ''drain_cnt'', ''gdrail_cnt'', ''pvmnt_trtmt_data'',
      ''pvmnt_ind'', ''iri_year'', ''opi_year'', ''surface_year'',
      ''cycle_maint_section'', ''gis_update_date'', ''gis_geometry_update_date'',
      ''se_anno_cad_data'', ''geometry'', ''gpid'', ''geometrylen'']"

definition additional_attrs :: "clean_row \<Rightarrow> (string \<times> attr_val) list" where
  "additional_attrs row =
     map (\<lambda>k. (k,
            if k = ''nhs_ind'' then AStr (nhs_ind row)
            else if k = ''surface_year'' then
              (if truthy_num (surface_year row) then ANum (surface_year row) else AStr [])
            else AStr []))
         attr_keys"

text \<open>The values of one INSERT: the 27 cleaned columns and, from the migration script
  only, the attribute object.\<close>

record insert_values =
  ins_vals :: clean_row
  ins_attrs :: "(string \<times> attr_val) list option"

definition server_values :: "clean_row \<Rightarrow> insert_values" where
  "server_values row = \<lparr> ins_vals = row, ins_attrs = None \<rparr>"

definition migrate_values :: "clean_row \<Rightarrow> insert_values" where
  "migrate_values row = \<lparr> ins_vals = row, ins_attrs = Some (additional_attrs row) \<rparr>"

text \<open>
  A stored row: the \<open>SERIAL\<close> id the database assigns and the values as they were sent
  (the database's own rounding of a \<open>DECIMAL\<close> column to its scale is not modelled).
\<close>

record seg_row =
  seg_id :: nat
  seg_vals :: clean_row
  seg_attrs :: "(string \<times> attr_val) list option"

record database =
  road_segments :: "seg_row list"
  next_id :: nat

datatype sql = Begin | DeleteAll | Insert insert_values | Commit | Rollback

text \<open>
  A connection checked out of the pool: the committed table, the connection's own view of
  it while a transaction is open, the id sequence (which a rollback does not rewind) and
  the statements sent so far.
\<close>

record session =
  committed :: "seg_row list"
  working :: "seg_row list option"
  seq :: nat
  log :: "sql list"

definition connect :: "database \<Rightarrow> session" where
  "connect db = \<lparr> committed = road_segments db, working = None, seq = next_id db, log = [] \<rparr>"

definition release :: "session \<Rightarrow> database" where
  "release s = \<lparr> road_segments = committed s, next_id = seq s \<rparr>"

definition store :: "nat \<Rightarrow> insert_values \<Rightarrow> seg_row" where
  "store i v = \<lparr> seg_id = i, seg_vals = ins_vals v, seg_attrs = ins_attrs v \<rparr>"

text \<open>
  \<open>client.query\<close> for the five statements the loaders send. Whether the database takes
  an INSERT (column types and lengths, the attribute text) is its own business: the
  predicate \<open>accepts\<close> stands for it. A refused INSERT rejects the promise with a message
  and changes nothing.
\<close>

definition exec :: "(insert_values \<Rightarrow> bool) \<Rightarrow> sql \<Rightarrow> session \<Rightarrow> error option \<times> session" where
  "exec accepts c s0 =
     (let s = s0\<lparr> log := log s0 @ [c] \<rparr> in
      case c of
        Begin \<Rightarrow> (None, s\<lparr> working := Some (committed s) \<rparr>)
      | DeleteAll \<Rightarrow>
          (None, case working s of
                   Some w \<Rightarrow> s\<lparr> working := Some [] \<rparr>
                 | None \<Rightarrow> s\<lparr> committed := [] \<rparr>)
      | Insert v \<Rightarrow>
          (if accepts v then
             (None, case working s of
                      Some w \<Rightarrow> s\<lparr> working := Some (w @ [store (seq s) v]), seq := Suc (seq s) \<rparr>
                    | None \<Rightarrow> s\<lparr> committed := committed s @ [store (seq s) v], seq := Suc (seq s) \<rparr>)
           else (Some ''insert failed'', s))
      | Commit \<Rightarrow>
          (None, case working s of
                   Some w \<Rightarrow> s\<lparr> committed := w, working := None \<rparr>
                 | None \<Rightarrow> s)
      | Rollback \<Rightarrow> (None, s\<lparr> working := None \<rparr>))"

text \<open>\<open>await\<close> in sequence: a rejected promise skips the rest of the \<open>try\<close> block.\<close>

definition and_then ::
  "(session \<Rightarrow> error option \<times> session) \<Rightarrow> (session \<Rightarrow> error option \<times> session) \<Rightarrow>
   session \<Rightarrow> error option \<times> session" where
  "and_then f g s = (case f s of (None, s') \<Rightarrow> g s' | (Some e, s') \<Rightarrow> (Some e, s'))"

section \<open>The bulk load (\<open>loadCSVData\<close> in server.js, \<open>insertRoadData\<close> in migrate_data.js)\<close>

definition batchSize :: nat where
  "batchSize = 1000"

text \<open>The inner loop, \<open>for (const row of batch)\<close>: one INSERT per row.\<close>

fun insert_batch ::
  "(insert_values \<Rightarrow> bool) \<Rightarrow> (clean_row \<Rightarrow> insert_values) \<Rightarrow> clean_row list \<Rightarrow>
   session \<Rightarrow> error option \<times> session" where
  "insert_batch accepts mk [] s = (None, s)"
| "insert_batch accepts mk (row # batch) s =
     (case exec accepts (Insert (mk row)) s of
        (None, s') \<Rightarrow> insert_batch accepts mk batch s'
      | (Some e, s') \<Rightarrow> (Some e, s'))"

text \<open>The outer loop, \<open>for (let i = 0; i < data.length; i += batchSize)\<close> with
  \<open>batch = data.slice(i, i + batchSize)\<close>.\<close>

function insert_batches ::
  "(insert_values \<Rightarrow> bool) \<Rightarrow> (clean_row \<Rightarrow> insert_values) \<Rightarrow> clean_row list \<Rightarrow> nat \<Rightarrow>
   session \<Rightarrow> error option \<times> session" where
  "insert_batches accepts mk data i s =
     (if i < length data then
        (case insert_batch accepts mk (take batchSize (drop i data)) s of
           (None, s') \<Rightarrow> insert_batches accepts mk data (i + batchSize) s'
         | (Some e, s') \<Rightarrow> (Some e, s'))
      else (None, s))"
  by pat_completeness auto
termination
  by (relation "measure (\<lambda>(accepts, mk, data, i, s). length data - i)")
     (auto simp: batchSize_def)

declare insert_batches.simps [simp del]

text \<open>
  The \<open>try\<close> block shared by both loaders (BEGIN, DELETE, the batches, COMMIT) and its
  \<open>catch\<close>, which sends ROLLBACK and throws the error on. The loaders differ only in the
  values they send, \<open>mk\<close>.
\<close>

definition transaction ::
  "(insert_values \<Rightarrow> bool) \<Rightarrow> (clean_row \<Rightarrow> insert_values) \<Rightarrow> clean_row list \<Rightarrow>
   session \<Rightarrow> error option \<times> session" where
  "transaction accepts mk data s =
     (case and_then (exec accepts Begin)
            (and_then (exec accepts DeleteAll)
              (and_then (insert_batches accepts mk data 0)
                (exec accepts Commit))) s of
        (None, s') \<Rightarrow> (None, s')
      | (Some e, s') \<Rightarrow> (Some e, snd (exec accepts Rollback s')))"

text \<open>migrate_data.js, \<open>insertRoadData\<close>: the promise resolves (\<open>None\<close>) or rejects.\<close>

definition insertRoadData ::
  "(insert_values \<Rightarrow> bool) \<Rightarrow> clean_row list \<Rightarrow> database \<Rightarrow> error option \<times> database" where
  "insertRoadData accepts data db =
     (case transaction accepts migrate_values data (connect db) of
        (r, s) \<Rightarrow> (r, release s))"

text \<open>migrate_data.js, \<open>migrateData\<close>: the process exit code and the database left
  behind. A missing file (\<open>None\<close>), a stream error and a failed load all end in
  \<open>process.exit(1)\<close>.\<close>

definition migrateData ::
  "(insert_values \<Rightarrow> bool) \<Rightarrow> csv_stream option \<Rightarrow> database \<Rightarrow> nat \<times> database" where
  "migrateData accepts file db =
     (case file of
        None \<Rightarrow> (1, db)
      | Some stream \<Rightarrow>
          (case migrate_processCSV stream of
             Inl e \<Rightarrow> (1, db)
           | Inr data \<Rightarrow>
               (case insertRoadData accepts data db of
                  (None, db') \<Rightarrow> (0, db')
                | (Some e, db') \<Rightarrow> (1, db'))))"

text \<open>server.js, \<open>loadCSVData\<close>: nothing happens when the file does not exist; every
  error is logged and swallowed by the outer \<open>catch\<close>.\<close>

definition loadCSVData ::
  "(insert_values \<Rightarrow> bool) \<Rightarrow> csv_stream option \<Rightarrow> database \<Rightarrow> database" where
  "loadCSVData accepts file db =
     (case file of
        None \<Rightarrow> db
      | Some stream \<Rightarrow>
          (case server_processCSV stream of
             Inl e \<Rightarrow> db
           | Inr data \<Rightarrow> release (snd (transaction accepts server_values data (connect db)))))"

text \<open>The rows a successful load leaves in the table: the values sent, numbered from the
  sequence.\<close>

definition stored_rows :: "nat \<Rightarrow> insert_values list \<Rightarrow> seg_row list" where
  "stored_rows n vs = map (\<lambda>(i, v). store i v) (zip [n..<n + length vs] vs)"

section \<open>HTTP responses\<close>

text \<open>\<open>res.json(x)\<close> answers 200 with \<open>x\<close>; \<open>res.status(n).json({error: m})\<close> answers
  \<open>n\<close> with an error object.\<close>

datatype 'a body = Rows 'a | ErrorObj string | MessageObj string

type_synonym 'a response = "nat \<times> 'a body"

section \<open>\<open>POST /api/upload\<close>\<close>

text \<open>
  The identifiers bound where the handler runs: what server.js declares at module level
  and the Node globals it uses. The handler reads one more, \<open>db\<close>, which nothing
  declares; evaluating it throws a ReferenceError.
\<close>

definition server_scope :: "string list" where
  "server_scope =
     [''express'', ''csv'', ''fs'', ''Pool'', ''cors'', ''multer'', ''chokidar'', ''path'',
      ''app'', ''PORT'', ''dbConfig'', ''pool'', ''processCSV'', ''loadCSVData'', ''upload'',
      ''require'', ''process'', ''console'']"

fun show_nat :: "nat \<Rightarrow> string" where
  "show_nat n =
     (if n < 10 then [char_of (48 + n)]
      else show_nat (n div 10) @ [char_of (48 + n mod 10)])"

declare show_nat.simps [simp del]

text \<open>
  \<open>file\<close> is \<open>req.file\<close>: the uploaded file as the stream \<open>processCSV\<close> reads, or
  \<open>undefined\<close>. The statements after \<open>db\<close> (a DELETE and one INSERT per row, sent
  outside any transaction, their errors going to callbacks the code does not pass) are
  written for a bound \<open>db\<close>.
\<close>

definition upload_handler ::
  "(insert_values \<Rightarrow> bool) \<Rightarrow> csv_stream option \<Rightarrow> database \<Rightarrow> unit response \<times> database" where
  "upload_handler accepts file db =
     (case file of
        None \<Rightarrow> ((400, ErrorObj ''No file uploaded''), db)
      | Some stream \<Rightarrow>
          (case server_processCSV stream of
             Inl e \<Rightarrow> ((500, ErrorObj e), db)
           | Inr data \<Rightarrow>
               if ''db'' \<in> set server_scope then
                 (let s1 = snd (exec accepts DeleteAll (connect db));
                      s2 = fold (\<lambda>row s. snd (exec accepts (Insert (server_values row)) s)) data s1
                  in ((200, MessageObj (''Successfully loaded '' @ show_nat (length data) @
                                         '' road segments'')),
                      release s2))
               else ((500, ErrorObj ''db is not defined''), db)))"

section \<open>\<open>GET /api/roads\<close>\<close>

text \<open>\<open>req.query\<close>: each parameter is a string or \<open>undefined\<close> (repeated and nested
  parameters, which Express turns into arrays and objects, are left out).\<close>

record roads_params =
  q_fac_type :: "string option"
  q_surf_type :: "string option"
  q_district_no :: "string option"
  q_urban_rural :: "string option"
  q_min_condition :: "string option"
  q_max_condition :: "string option"
  q_limit :: "string option"
  q_offset :: "string option"

text \<open>
  The query text is the fixed SELECT with \<open>WHERE 1=1\<close>, then one
  \<open>AND column op $n\<close> per clause, then \<open>LIMIT $n OFFSET $n\<close>. It is kept as its
  parts: the clauses with their placeholder numbers and the two placeholders of the
  last line. There is no ORDER BY.
\<close>

datatype column = FacType | SurfType | DistrictNo | UrbanRural | RoughIndx

datatype cmp = Eq | Ge | Le

datatype param = PStr string | PNum jsnum

record select_roads =
  where_clauses :: "(column \<times> cmp \<times> nat) list"
  limit_ph :: nat
  offset_ph :: nat

text \<open>\<open>if (v) { query += ` AND col op $${++paramCount}`; params.push(v); }\<close> on the
  triple of query clauses, \<open>params\<close> and \<open>paramCount\<close>. A string is truthy when it
  is not empty.\<close>

definition add_filter ::
  "column \<Rightarrow> cmp \<Rightarrow> string option \<Rightarrow>
   (column \<times> cmp \<times> nat) list \<times> param list \<times> nat \<Rightarrow>
   (column \<times> cmp \<times> nat) list \<times> param list \<times> nat" where
  "add_filter col op v st =
     (case st of (clauses, params, paramCount) \<Rightarrow>
        (case v of
           None \<Rightarrow> st
         | Some s \<Rightarrow>
             if s \<noteq> [] then
               (clauses @ [(col, op, paramCount + 1)], params @ [PStr s], paramCount + 1)
             else st))"

text \<open>The destructuring default \<open>limit = 10000\<close> applies to \<open>undefined\<close> only;
  \<open>parseInt\<close> then reads the number through its decimal text.\<close>

definition with_default :: "string option \<Rightarrow> string \<Rightarrow> string option" where
  "with_default v d = (case v of None \<Rightarrow> Some d | Some s \<Rightarrow> Some s)"

definition roads_query :: "roads_params \<Rightarrow> select_roads \<times> param list" where
  "roads_query q =
     (case add_filter RoughIndx Le (q_max_condition q)
            (add_filter RoughIndx Ge (q_min_condition q)
              (add_filter UrbanRural Eq (q_urban_rural q)
                (add_filter DistrictNo Eq (q_district_no q)
                  (add_filter SurfType Eq (q_surf_type q)
                    (add_filter FacType Eq (q_fac_type q) ([], [], 0)))))) of
        (clauses, params, paramCount) \<Rightarrow>
          (\<lparr> where_clauses = clauses, limit_ph = paramCount + 1, offset_ph = paramCount + 2 \<rparr>,
           params @ [PNum (parseInt (with_default (q_limit q) ''10000'')),
                     PNum (parseInt (with_default (q_offset q) ''0''))]))"

subsection \<open>What the database does with the query\<close>

text \<open>
  The order of NaN and the infinities among numeric values, as PostgreSQL has it (NaN
  above everything).
\<close>

definition pg_le :: "jsnum \<Rightarrow> jsnum \<Rightarrow> bool" where
  "pg_le a b =
     (case b of
        NaN \<Rightarrow> True
      | PosInf \<Rightarrow> a \<noteq> NaN
      | NegInf \<Rightarrow> a = NegInf
      | Num y \<Rightarrow> (case a of Num x \<Rightarrow> x \<le> y | NegInf \<Rightarrow> True | PosInf \<Rightarrow> False | NaN \<Rightarrow> False))"

definition placeholder :: "param list \<Rightarrow> nat \<Rightarrow> param option" where
  "placeholder params n = (if 0 < n \<and> n \<le> length params then Some (params ! (n - 1)) else None)"

text \<open>
  Parameters travel as text. The database refuses a text parameter that holds a NUL byte,
  whatever the column. The messages below are PostgreSQL's, with their double quotes.
\<close>

definition dq :: "string \<Rightarrow> string" where
  "dq s = CHR 0x22 # s @ [CHR 0x22]"

definition has_nul :: "string \<Rightarrow> bool" where
  "has_nul s = (CHR 0x00 \<in> set s)"

definition nul_error :: error where
  "nul_error = ''invalid byte sequence for encoding '' @ dq ''UTF8'' @ '': 0x00''"

text \<open>
  One clause as a test on a row. A text column is compared with the parameter as it is;
  \<open>rough_indx\<close> is numeric, so the database first reads the parameter's text as a number
  (\<open>cast\<close>, its own input routine, which answers with the number or with its error
  message) and fails the statement when it cannot.
\<close>

definition clause_test ::
  "(string \<Rightarrow> error + jsnum) \<Rightarrow> param list \<Rightarrow> column \<times> cmp \<times> nat \<Rightarrow> error + (clean_row \<Rightarrow> bool)" where
  "clause_test cast params cl =
     (case cl of (col, op, n) \<Rightarrow>
        (case placeholder params n of
           Some (PStr v) \<Rightarrow>
             if has_nul v then Inl nul_error
             else
               (case (col, op) of
                  (FacType, Eq) \<Rightarrow> Inr (\<lambda>r. fac_type r = v)
                | (SurfType, Eq) \<Rightarrow> Inr (\<lambda>r. surf_type r = v)
                | (DistrictNo, Eq) \<Rightarrow> Inr (\<lambda>r. district_no r = v)
                | (UrbanRural, Eq) \<Rightarrow> Inr (\<lambda>r. urban_rural r = v)
                | (RoughIndx, Ge) \<Rightarrow>
                    (case cast v of
                       Inr x \<Rightarrow> Inr (\<lambda>r. pg_le x (rough_indx r))
                     | Inl e \<Rightarrow> Inl e)
                | (RoughIndx, Le) \<Rightarrow>
                    (case cast v of
                       Inr x \<Rightarrow> Inr (\<lambda>r. pg_le (rough_indx r) x)
                     | Inl e \<Rightarrow> Inl e)
                | _ \<Rightarrow> Inl ''operator does not exist'')
         | _ \<Rightarrow> Inl ''could not determine data type of parameter''))"

fun clause_tests ::
  "(string \<Rightarrow> error + jsnum) \<Rightarrow> param list \<Rightarrow> (column \<times> cmp \<times> nat) list \<Rightarrow>
   error + (clean_row \<Rightarrow> bool) list" where
  "clause_tests cast params [] = Inr []"
| "clause_tests cast params (cl # cls) =
     (case clause_test cast params cl of
        Inl e \<Rightarrow> Inl e
      | Inr t \<Rightarrow>
          (case clause_tests cast params cls of
             Inl e \<Rightarrow> Inl e
           | Inr ts \<Rightarrow> Inr (t # ts)))"

text \<open>
  A LIMIT or OFFSET parameter is read as a \<open>bigint\<close>. The number arrives as its
  JavaScript text: NaN, Infinity and -Infinity are not numbers the database reads. A
  whole number beyond the \<open>bigint\<close> range is refused too (its message quotes the
  number's text, left out here; such numbers are beyond \<open>2^53\<close>).
\<close>

definition bind_bigint :: "param list \<Rightarrow> nat \<Rightarrow> error + int" where
  "bind_bigint params n =
     (case placeholder params n of
        Some (PNum (Num r)) \<Rightarrow>
          if r \<noteq> of_int \<lfloor>r\<rfloor> then Inl ''invalid input syntax for type bigint''
          else if r < - (2 ^ 63) \<or> 2 ^ 63 - 1 < r then Inl ''value is out of range for type bigint''
          else Inr \<lfloor>r\<rfloor>
      | Some (PNum NaN) \<Rightarrow> Inl (''invalid input syntax for type bigint: '' @ dq ''NaN'')
      | Some (PNum PosInf) \<Rightarrow> Inl (''invalid input syntax for type bigint: '' @ dq ''Infinity'')
      | Some (PNum NegInf) \<Rightarrow> Inl (''invalid input syntax for type bigint: '' @ dq ''-Infinity'')
      | _ \<Rightarrow> Inl ''could not determine data type of parameter'')"

text \<open>
  \<open>pool.query(query, params)\<close> for the roads query. The parameters are read in their
  order (the filters, then LIMIT, then OFFSET); a negative OFFSET or LIMIT is refused
  when the statement runs. Without ORDER BY the rows come in whatever order the engine
  produces them this time: \<open>scan\<close> is that order.
\<close>

definition pg_select_roads ::
  "(seg_row list \<Rightarrow> seg_row list) \<Rightarrow> (string \<Rightarrow> error + jsnum) \<Rightarrow> select_roads \<Rightarrow> param list \<Rightarrow>
   seg_row list \<Rightarrow> error + (nat \<times> clean_row) list" where
  "pg_select_roads scan cast sel params table =
     (case clause_tests cast params (where_clauses sel) of
        Inl e \<Rightarrow> Inl e
      | Inr ts \<Rightarrow>
          (case bind_bigint params (limit_ph sel) of
             Inl e \<Rightarrow> Inl e
           | Inr l \<Rightarrow>
               (case bind_bigint params (offset_ph sel) of
                  Inl e \<Rightarrow> Inl e
                | Inr ofs \<Rightarrow>
                    if ofs < 0 then Inl ''OFFSET must not be negative''
                    else if l < 0 then Inl ''LIMIT must not be negative''
                    else
                      Inr (map (\<lambda>r. (seg_id r, seg_vals r))
                            (take (nat l) (drop (nat ofs)
                              (filter (\<lambda>r. list_all (\<lambda>t. t (seg_vals r)) ts) (scan table))))))))"

definition roads_handler ::
  "(seg_row list \<Rightarrow> seg_row list) \<Rightarrow> (string \<Rightarrow> error + jsnum) \<Rightarrow> roads_params \<Rightarrow> database \<Rightarrow>
   (nat \<times> clean_row) list response" where
  "roads_handler scan cast q db =
     (case roads_query q of (sel, params) \<Rightarrow>
        (case pg_select_roads scan cast sel params (road_segments db) of
           Inr rows \<Rightarrow> (200, Rows rows)
         | Inl e \<Rightarrow> (500, ErrorObj e)))"

text \<open>
  The filters of a request read as a condition on a row, one conjunct per parameter that
  is present and not empty: what the request asks for, stated apart from the query text
  and its placeholders.
\<close>

definition eq_filter :: "string option \<Rightarrow> string \<Rightarrow> bool" where
  "eq_filter v x = (case v of None \<Rightarrow> True | Some s \<Rightarrow> if s = [] then True else x = s)"

definition ge_filter :: "(string \<Rightarrow> error + jsnum) \<Rightarrow> string option \<Rightarrow> jsnum \<Rightarrow> bool" where
  "ge_filter cast v x =
     (case v of
        None \<Rightarrow> True
      | Some s \<Rightarrow> if s = [] then True else (case cast s of Inr lo \<Rightarrow> pg_le lo x | Inl e \<Rightarrow> False))"

definition le_filter :: "(string \<Rightarrow> error + jsnum) \<Rightarrow> string option \<Rightarrow> jsnum \<Rightarrow> bool" where
  "le_filter cast v x =
     (case v of
        None \<Rightarrow> True
      | Some s \<Rightarrow> if s = [] then True else (case cast s of Inr hi \<Rightarrow> pg_le x hi | Inl e \<Rightarrow> False))"

definition matches :: "(string \<Rightarrow> error + jsnum) \<Rightarrow> roads_params \<Rightarrow> clean_row \<Rightarrow> bool" where
  "matches cast q r =
     (eq_filter (q_fac_type q) (fac_type r) \<and>
      eq_filter (q_surf_type q) (surf_type r) \<and>
      eq_filter (q_district_no q) (district_no r) \<and>
      eq_filter (q_urban_rural q) (urban_rural r) \<and>
      ge_filter cast (q_min_condition q) (rough_indx r) \<and>
      le_filter cast (q_max_condition q) (rough_indx r))"

text \<open>
  The filter values the database takes. A text filter is sendable when it is absent or
  holds no NUL byte; a bound is readable when it is absent, empty, or NUL-free text the
  database reads as a number. \<open>filters_accepted\<close> says so of all six.
\<close>

definition sendable :: "string option \<Rightarrow> bool" where
  "sendable v = (case v of None \<Rightarrow> True | Some s \<Rightarrow> \<not> has_nul s)"

definition readable :: "(string \<Rightarrow> error + jsnum) \<Rightarrow> string option \<Rightarrow> bool" where
  "readable cast v =
     (case v of
        None \<Rightarrow> True
      | Some s \<Rightarrow> if s = [] then True else \<not> has_nul s \<and> \<not> isl (cast s))"

definition filters_accepted :: "(string \<Rightarrow> error + jsnum) \<Rightarrow> roads_params \<Rightarrow> bool" where
  "filters_accepted cast q =
     (sendable (q_fac_type q) \<and> sendable (q_surf_type q) \<and>
      sendable (q_district_no q) \<and> sendable (q_urban_rural q) \<and>
      readable cast (q_min_condition q) \<and> readable cast (q_max_condition q))"

text \<open>
  Two statements about a query under construction (clauses, \<open>params\<close>, \<open>paramCount\<close>),
  used in the proofs: its clauses, run against \<open>params\<close> followed by any later
  parameters, test exactly the condition \<open>P\<close>; or they make the statement fail.
\<close>

definition query_means ::
  "(string \<Rightarrow> error + jsnum) \<Rightarrow> (column \<times> cmp \<times> nat) list \<times> param list \<times> nat \<Rightarrow>
   (clean_row \<Rightarrow> bool) \<Rightarrow> bool" where
  "query_means cast st P =
     (case st of (clauses, params, n) \<Rightarrow>
        n = length params \<and>
        (\<exists>ts. (\<forall>extra. clause_tests cast (params @ extra) clauses = Inr ts) \<and>
              (\<forall>r. list_all (\<lambda>t. t r) ts = P r)))"

definition query_fails ::
  "(string \<Rightarrow> error + jsnum) \<Rightarrow> (column \<times> cmp \<times> nat) list \<times> param list \<times> nat \<Rightarrow> bool" where
  "query_fails cast st =
     (case st of (clauses, params, n) \<Rightarrow>
        (\<forall>extra. isl (clause_tests cast (params @ extra) clauses)))"

section \<open>\<open>GET /api/statistics\<close>\<close>

text \<open>An SQL string literal: the text between two apostrophes.\<close>

definition sql_str :: "string \<Rightarrow> string" where
  "sql_str s = CHR 0x27 # s @ [CHR 0x27]"

text \<open>The object \<open>queries\<close>, as \<open>Object.entries\<close> lists it.\<close>

definition statistics_queries :: "(string \<times> string) list" where
  "statistics_queries =
     [(''total_segments'', ''SELECT COUNT(*) as count FROM road_segments''),
      (''total_miles'', ''SELECT SUM(segment_miles) as total FROM road_segments''),
      (''by_fac_type'',
        ''SELECT fac_type, COUNT(*) as count FROM road_segments GROUP BY fac_type''),
      (''by_surf_type'',
        ''SELECT surf_type, COUNT(*) as count FROM road_segments GROUP BY surf_type''),
      (''by_condition'',
        ''SELECT iri_rating_text, COUNT(*) as count FROM road_segments WHERE iri_rating_text != ''
          @ sql_str [] @ '' GROUP BY iri_rating_text''),
      (''by_district'',
        ''SELECT district_no, COUNT(*) as count FROM road_segments GROUP BY district_no'')]"

text \<open>
  The loop over the entries. \<open>run\<close> is \<open>pool.query\<close>: what each statement's promise
  settles to, the rows or an error. The inner \<open>catch\<close> stores an empty array.
\<close>

fun statistics_loop ::
  "(string \<Rightarrow> error + 'r list) \<Rightarrow> (string \<times> string) list \<Rightarrow> (string \<rightharpoonup> 'r list) \<Rightarrow>
   (string \<rightharpoonup> 'r list)" where
  "statistics_loop run [] results = results"
| "statistics_loop run ((key, query) # rest) results =
     statistics_loop run rest
       (case run query of
          Inr rows \<Rightarrow> results(key \<mapsto> rows)
        | Inl e \<Rightarrow> results(key \<mapsto> []))"

definition statistics_handler ::
  "(string \<Rightarrow> error + 'r list) \<Rightarrow> (string \<rightharpoonup> 'r list) response" where
  "statistics_handler run = (200, Rows (statistics_loop run statistics_queries Map.empty))"

section \<open>\<open>GET /api/heatmap\<close>\<close>

record heatmap_params =
  q_type :: "string option"
  q_data_source :: "string option"

definition osm_condition_sql :: string where
  "osm_condition_sql =
     ''SELECT ST_X(ST_StartPoint(geom)) as x_value_bgn, ST_Y(ST_StartPoint(geom)) as y_value_bgn, length_meters as value FROM osm_roads WHERE length_meters > 0 AND state = ''
     @ sql_str ''PA''"

definition osm_traffic_sql :: string where
  "osm_traffic_sql =
     ''SELECT ST_X(ST_StartPoint(geom)) as x_value_bgn, ST_Y(ST_StartPoint(geom)) as y_value_bgn, COALESCE(lanes, 1) as value FROM osm_roads WHERE state = ''
     @ sql_str ''PA''"

definition osm_age_sql :: string where
  "osm_age_sql =
     ''SELECT ST_X(ST_StartPoint(geom)) as x_value_bgn, ST_Y(ST_StartPoint(geom)) as y_value_bgn, length_meters as value FROM osm_roads WHERE state = ''
     @ sql_str ''PA''"

definition csv_condition_sql :: string where
  "csv_condition_sql =
     ''SELECT ST_X(start_point) as x_value_bgn, ST_Y(start_point) as y_value_bgn, rough_indx as value FROM road_segments WHERE rough_indx > 0''"

definition csv_traffic_sql :: string where
  "csv_traffic_sql =
     ''SELECT ST_X(start_point) as x_value_bgn, ST_Y(start_point) as y_value_bgn, cur_aadt as value FROM road_segments WHERE cur_aadt > 0''"

definition csv_age_sql :: string where
  "csv_age_sql =
     ''SELECT ST_X(start_point) as x_value_bgn, ST_Y(start_point) as y_value_bgn, (EXTRACT(YEAR FROM CURRENT_DATE) - surface_year) as value FROM road_segments WHERE surface_year > 0''"

text \<open>The two \<open>switch\<close> statements; the \<open>default\<close> branches assign the text of the
  \<open>condition\<close> branches again.\<close>

definition heatmap_query :: "string \<Rightarrow> string \<Rightarrow> string" where
  "heatmap_query type data_source =
     (if data_source = ''osm'' then
        (if type = ''condition'' then osm_condition_sql
         else if type = ''traffic'' then osm_traffic_sql
         else if type = ''age'' then osm_age_sql
         else osm_condition_sql)
      else
        (if type = ''condition'' then csv_condition_sql
         else if type = ''traffic'' then csv_traffic_sql
         else if type = ''age'' then csv_age_sql
         else csv_condition_sql))"

definition default_to :: "string option \<Rightarrow> string \<Rightarrow> string" where
  "default_to v d = (case v of None \<Rightarrow> d | Some s \<Rightarrow> s)"

definition heatmap_handler ::
  "(string \<Rightarrow> error + 'r list) \<Rightarrow> heatmap_params \<Rightarrow> 'r list response" where
  "heatmap_handler run q =
     (case run (heatmap_query (default_to (q_type q) ''condition'')
                              (default_to (q_data_source q) ''csv'')) of
        Inr rows \<Rightarrow> (200, Rows rows)
      | Inl e \<Rightarrow> (500, ErrorObj e))"

subsection \<open>The OSM heat-map statements on the \<open>osm_roads\<close> table\<close>

text \<open>
  The columns of \<open>osm_roads\<close> these statements read (database/pbf_import.sql); each may
  be NULL. \<open>start_x\<close> and \<open>start_y\<close> are \<open>ST_X(ST_StartPoint(geom))\<close> and
  \<open>ST_Y(ST_StartPoint(geom))\<close>.
\<close>

record osm_road =
  start_x :: "rat option"
  start_y :: "rat option"
  length_meters :: "rat option"
  lanes :: "int option"
  state :: "string option"

text \<open>A comparison with NULL is not true.\<close>

definition positive :: "rat option \<Rightarrow> bool" where
  "positive v = (case v of None \<Rightarrow> False | Some x \<Rightarrow> 0 < x)"

definition in_pa :: "osm_road \<Rightarrow> bool" where
  "in_pa r = (state r = Some ''PA'')"

definition coalesce_lanes :: "osm_road \<Rightarrow> rat option" where
  "coalesce_lanes r = (case lanes r of None \<Rightarrow> Some 1 | Some n \<Rightarrow> Some (of_int n))"

text \<open>
  \<open>pool.query\<close> for the three OSM statements: a result row is the triple
  \<open>(x_value_bgn, y_value_bgn, value)\<close>. Rows come in the engine's order \<open>scan\<close>. Any
  other statement is outside this table's model and is answered with an error.
\<close>

definition pg_osm_heatmap ::
  "(osm_road list \<Rightarrow> osm_road list) \<Rightarrow> osm_road list \<Rightarrow> string \<Rightarrow>
   error + (rat option \<times> rat option \<times> rat option) list" where
  "pg_osm_heatmap scan table query =
     (if query = osm_condition_sql then
        Inr (map (\<lambda>r. (start_x r, start_y r, length_meters r))
              (filter (\<lambda>r. positive (length_meters r) \<and> in_pa r) (scan table)))
      else if query = osm_traffic_sql then
        Inr (map (\<lambda>r. (start_x r, start_y r, coalesce_lanes r)) (filter in_pa (scan table)))
      else if query = osm_age_sql then
        Inr (map (\<lambda>r. (start_x r, start_y r, length_meters r)) (filter in_pa (scan table)))
      else Inl ''statement not modelled'')"

section \<open>The bulk load: proofs\<close>

lemma stored_rows_Nil: "stored_rows n [] = []"
  by (simp add: stored_rows_def)

lemma stored_rows_Cons: "stored_rows n (v # vs) = store n v # stored_rows (Suc n) vs"
  by (simp add: stored_rows_def upt_rec)

lemma length_stored_rows: "length (stored_rows n vs) = length vs"
  by (simp add: stored_rows_def)

lemma insert_batch_ok:
  "list_all (\<lambda>r. accepts (mk r)) rows \<Longrightarrow> working s = Some w \<Longrightarrow>
   insert_batch accepts mk rows s =
     (None, s\<lparr> working := Some (w @ stored_rows (seq s) (map mk rows)),
               seq := seq s + length rows,
               log := log s @ map (\<lambda>r. Insert (mk r)) rows \<rparr>)"
proof (induction rows arbitrary: s w)
  case Nil
  then show ?case by (simp add: stored_rows_Nil)
next
  case (Cons r rows)
  then show ?case
    by (simp add: exec_def stored_rows_Cons)
qed

lemma insert_batch_fail:
  "\<not> list_all (\<lambda>r. accepts (mk r)) rows \<Longrightarrow> working s = Some w \<Longrightarrow>
   \<exists>e s'. insert_batch accepts mk rows s = (Some e, s') \<and> committed s' = committed s \<and> seq s \<le> seq s'"
proof (induction rows arbitrary: s w)
  case Nil
  then show ?case by simp
next
  case (Cons r rows)
  show ?case
  proof (cases "accepts (mk r)")
    case False
    then show ?thesis by (simp add: exec_def)
  next
    case True
    let ?s1 = "s\<lparr> log := log s @ [Insert (mk r)], working := Some (w @ [store (seq s) (mk r)]), seq := Suc (seq s) \<rparr>"
    from True Cons.prems have step: "exec accepts (Insert (mk r)) s = (None, ?s1)"
      by (simp add: exec_def)
    from True Cons.prems have "\<not> list_all (\<lambda>r. accepts (mk r)) rows" by simp
    from Cons.IH [OF this, of ?s1] obtain e s' where
      "insert_batch accepts mk rows ?s1 = (Some e, s')" "committed s' = committed ?s1" "seq ?s1 \<le> seq s'"
      by auto
    with step show ?thesis by simp
  qed
qed

lemma insert_batch_append:
  "insert_batch accepts mk (xs @ ys) s =
     (case insert_batch accepts mk xs s of
        (None, s') \<Rightarrow> insert_batch accepts mk ys s'
      | (Some e, s') \<Rightarrow> (Some e, s'))"
  by (induction xs arbitrary: s) (auto split: prod.splits option.splits)

lemma insert_batches_eq:
  "insert_batches accepts mk data i s = insert_batch accepts mk (drop i data) s"
proof (induction accepts mk data i s rule: insert_batches.induct)
  case (1 accepts mk data i s)
  show ?case
  proof (cases "i < length data")
    case False
    then show ?thesis by (subst insert_batches.simps) simp
  next
    case True
    have split: "drop i data = take batchSize (drop i data) @ drop (i + batchSize) data"
      by (metis append_take_drop_id drop_drop add.commute)
    show ?thesis
    proof -
      have "insert_batches accepts mk data i s =
              (case insert_batch accepts mk (take batchSize (drop i data)) s of
                 (None, s') \<Rightarrow> insert_batch accepts mk (drop (i + batchSize) data) s'
               | (Some e, s') \<Rightarrow> (Some e, s'))"
        using True "1.IH" by (subst insert_batches.simps) (auto split: prod.splits option.splits)
      also have "\<dots> = insert_batch accepts mk (take batchSize (drop i data) @ drop (i + batchSize) data) s"
        by (simp add: insert_batch_append)
      finally show ?thesis using split by simp
    qed
  qed
qed


lemma transaction_ok:
  assumes "list_all (\<lambda>r. accepts (mk r)) data"
  shows "transaction accepts mk data s =
           (None, \<lparr> committed = stored_rows (seq s) (map mk data), working = None,
                     seq = seq s + length data,
                     log = log s @ [Begin, DeleteAll] @ map (\<lambda>r. Insert (mk r)) data @ [Commit] \<rparr>)"
proof -
  let ?s2 = "s\<lparr> log := log s @ [Begin, DeleteAll], working := Some [] \<rparr>"
  have two: "and_then (exec accepts Begin) (and_then (exec accepts DeleteAll) k) s = k ?s2" for k
    by (simp add: and_then_def exec_def)
  have ins: "insert_batches accepts mk data 0 ?s2 =
      (None, ?s2\<lparr> working := Some ([] @ stored_rows (seq ?s2) (map mk data)),
                   seq := seq ?s2 + length data,
                   log := log ?s2 @ map (\<lambda>r. Insert (mk r)) data \<rparr>)"
    unfolding insert_batches_eq drop_0
    by (rule insert_batch_ok [OF assms]) simp
  show ?thesis
    unfolding transaction_def two
    by (simp add: and_then_def ins exec_def)
qed

lemma transaction_fail:
  assumes "\<not> list_all (\<lambda>r. accepts (mk r)) data"
  shows "\<exists>e s'. transaction accepts mk data s = (Some e, s') \<and> committed s' = committed s \<and>
           working s' = None \<and> seq s \<le> seq s' \<and> last (log s') = Rollback"
proof -
  let ?s2 = "s\<lparr> log := log s @ [Begin, DeleteAll], working := Some [] \<rparr>"
  have two: "and_then (exec accepts Begin) (and_then (exec accepts DeleteAll) k) s = k ?s2" for k
    by (simp add: and_then_def exec_def)
  from insert_batch_fail [OF assms, of ?s2 "[]"] obtain e s1 where
    ins: "insert_batches accepts mk data 0 ?s2 = (Some e, s1)" and c: "committed s1 = committed ?s2"
    and q: "seq ?s2 \<le> seq s1"
    unfolding insert_batches_eq drop_0 by auto
  have "transaction accepts mk data s = (Some e, snd (exec accepts Rollback s1))"
    unfolding transaction_def two by (simp add: and_then_def ins)
  moreover have "committed (snd (exec accepts Rollback s1)) = committed s"
    using c by (simp add: exec_def)
  moreover have "working (snd (exec accepts Rollback s1)) = None"
    by (simp add: exec_def)
  moreover have "seq s \<le> seq (snd (exec accepts Rollback s1))"
    using q by (simp add: exec_def)
  moreover have "last (log (snd (exec accepts Rollback s1))) = Rollback"
    by (simp add: exec_def)
  ultimately show ?thesis by blast
qed

lemma map_seg_vals_stored_rows: "map seg_vals (stored_rows n vs) = map ins_vals vs"
  by (induction vs arbitrary: n) (simp_all add: stored_rows_Nil stored_rows_Cons store_def)

text \<open>What a load leaves in the table, for either way of building the values.\<close>

lemma load_table:
  "committed (snd (transaction accepts mk data (connect db))) =
     (if list_all (\<lambda>r. accepts (mk r)) data then stored_rows (next_id db) (map mk data)
      else road_segments db)"
proof (cases "list_all (\<lambda>r. accepts (mk r)) data")
  case True
  then show ?thesis by (simp add: transaction_ok connect_def)
next
  case False
  from transaction_fail [OF False, of "connect db"] show ?thesis
    using False by (auto simp: connect_def)
qed

lemma load_vals:
  "map seg_vals (committed (snd (transaction accepts mk data (connect db)))) =
     (if list_all (\<lambda>r. accepts (mk r)) data then map (\<lambda>r. ins_vals (mk r)) data
      else map seg_vals (road_segments db))"
  by (simp add: load_table map_seg_vals_stored_rows comp_def)

lemma load_twice:
  "map seg_vals (committed (snd (transaction accepts mk data
       (connect (release (snd (transaction accepts mk data (connect db))))))))
   = map seg_vals (committed (snd (transaction accepts mk data (connect db))))"
  by (simp add: load_vals release_def)


text \<open>
  Claim C4. Running the ingestion a second time on the same file leaves the table with
  the same row count as the first run left, for the server's loader and for the migration
  script: the two tables hold the same values row by row (the ids differ, the sequence
  having moved on), so the count is not doubled. \<open>accepts\<close> is the same for both runs:
  the database refuses the same rows both times.
\<close>

theorem reload_same_rows:
  "map seg_vals (road_segments (loadCSVData accepts file (loadCSVData accepts file db))) =
     map seg_vals (road_segments (loadCSVData accepts file db)) \<and>
   length (road_segments (loadCSVData accepts file (loadCSVData accepts file db))) =
     length (road_segments (loadCSVData accepts file db)) \<and>
   map seg_vals (road_segments (snd (migrateData accepts file (snd (migrateData accepts file db))))) =
     map seg_vals (road_segments (snd (migrateData accepts file db))) \<and>
   length (road_segments (snd (migrateData accepts file (snd (migrateData accepts file db))))) =
     length (road_segments (snd (migrateData accepts file db)))"
proof -
  have server: "map seg_vals (road_segments (loadCSVData accepts file (loadCSVData accepts file db))) =
     map seg_vals (road_segments (loadCSVData accepts file db))"
  proof (cases "file")
    case None
    then show ?thesis by (simp add: loadCSVData_def)
  next
    case (Some stream)
    show ?thesis
    proof (cases "server_processCSV stream")
      case (Inl e)
      with Some show ?thesis by (simp add: loadCSVData_def)
    next
      case (Inr data)
      with Some show ?thesis
        using load_twice [of accepts server_values data db]
        by (simp add: loadCSVData_def release_def)
    qed
  qed
  have run: "release (snd (transaction accepts migrate_values data (connect d))) =
      snd (insertRoadData accepts data d)" for data d
    by (simp add: insertRoadData_def split: prod.splits)
  have mig: "snd (migrateData accepts f d) =
      (case f of None \<Rightarrow> d
       | Some stream \<Rightarrow>
           (case migrate_processCSV stream of Inl e \<Rightarrow> d
            | Inr data \<Rightarrow> release (snd (transaction accepts migrate_values data (connect d)))))" for f d
    by (auto simp: migrateData_def run split: option.splits sum.splits prod.splits)
  have migrate: "map seg_vals (road_segments (snd (migrateData accepts file (snd (migrateData accepts file db))))) =
     map seg_vals (road_segments (snd (migrateData accepts file db)))"
  proof (cases "file")
    case None
    then show ?thesis by (simp add: mig)
  next
    case (Some stream)
    show ?thesis
    proof (cases "migrate_processCSV stream")
      case (Inl e)
      with Some show ?thesis by (simp add: mig)
    next
      case (Inr data)
      with Some show ?thesis
        using load_twice [of accepts migrate_values data db]
        by (simp add: mig release_def)
    qed
  qed
  from server have l1: "length (road_segments (loadCSVData accepts file (loadCSVData accepts file db))) =
     length (road_segments (loadCSVData accepts file db))"
    by (rule map_eq_imp_length_eq)
  from migrate have l2: "length (road_segments (snd (migrateData accepts file (snd (migrateData accepts file db))))) =
     length (road_segments (snd (migrateData accepts file db)))"
    by (rule map_eq_imp_length_eq)
  from server migrate l1 l2 show ?thesis by blast
qed

text \<open>
  Claim C5. The bulk load is one transaction. When the database takes every row, the
  statements sent are BEGIN, DELETE, one INSERT per row and COMMIT, and the table holds
  exactly the new rows (the batches of 1000 only group the INSERTs: see
  \<open>insert_batches_eq\<close>). When it refuses a row, the load ends in ROLLBACK and the
  committed table is the one before the load. Both loaders, \<open>loadCSVData\<close> and
  \<open>insertRoadData\<close>, leave the table either fully replaced or untouched.
\<close>

theorem bulk_load_atomic:
  "(list_all (\<lambda>r. accepts (mk r)) data \<longrightarrow>
      transaction accepts mk data (connect db) =
        (None, \<lparr> committed = stored_rows (next_id db) (map mk data), working = None,
                  seq = next_id db + length data,
                  log = [Begin, DeleteAll] @ map (\<lambda>r. Insert (mk r)) data @ [Commit] \<rparr>)) \<and>
   (\<not> list_all (\<lambda>r. accepts (mk r)) data \<longrightarrow>
      fst (transaction accepts mk data (connect db)) \<noteq> None \<and>
      last (log (snd (transaction accepts mk data (connect db)))) = Rollback \<and>
      working (snd (transaction accepts mk data (connect db))) = None \<and>
      committed (snd (transaction accepts mk data (connect db))) = road_segments db) \<and>
   road_segments (loadCSVData accepts (Some (rows, None)) db) =
     (if list_all (\<lambda>r. accepts (server_values r)) (filter server_keeps (map cleanData rows))
      then stored_rows (next_id db) (map server_values (filter server_keeps (map cleanData rows)))
      else road_segments db) \<and>
   road_segments (snd (insertRoadData accepts data db)) =
     (if list_all (\<lambda>r. accepts (migrate_values r)) data
      then stored_rows (next_id db) (map migrate_values data)
      else road_segments db)"
proof -
  have a: "transaction accepts mk data (connect db) =
        (None, \<lparr> committed = stored_rows (next_id db) (map mk data), working = None,
                  seq = next_id db + length data,
                  log = [Begin, DeleteAll] @ map (\<lambda>r. Insert (mk r)) data @ [Commit] \<rparr>)"
    if "list_all (\<lambda>r. accepts (mk r)) data"
    using that by (simp add: transaction_ok connect_def)
  have b: "fst (transaction accepts mk data (connect db)) \<noteq> None \<and>
      last (log (snd (transaction accepts mk data (connect db)))) = Rollback \<and>
      working (snd (transaction accepts mk data (connect db))) = None \<and>
      committed (snd (transaction accepts mk data (connect db))) = road_segments db"
    if "\<not> list_all (\<lambda>r. accepts (mk r)) data"
    using transaction_fail [OF that, of "connect db"] by (auto simp: connect_def)
  have c: "road_segments (loadCSVData accepts (Some (rows, None)) db) =
     (if list_all (\<lambda>r. accepts (server_values r)) (filter server_keeps (map cleanData rows))
      then stored_rows (next_id db) (map server_values (filter server_keeps (map cleanData rows)))
      else road_segments db)"
    by (simp add: loadCSVData_def server_processCSV_def release_def load_table)
  have "snd (insertRoadData accepts data db) =
      release (snd (transaction accepts migrate_values data (connect db)))"
    by (simp add: insertRoadData_def split: prod.splits)
  then have d: "road_segments (snd (insertRoadData accepts data db)) =
     (if list_all (\<lambda>r. accepts (migrate_values r)) data
      then stored_rows (next_id db) (map migrate_values data)
      else road_segments db)"
    by (simp add: release_def load_table)
  from a b c d show ?thesis by blast
qed

theorem bulk_load_atomic_witness:
  "list_all (\<lambda>r. (\<lambda>v. True) (server_values r)) [cleanData Map.empty] \<and>
   committed (snd (transaction (\<lambda>v. True) server_values [cleanData Map.empty]
       (connect \<lparr> road_segments = [], next_id = 7 \<rparr>))) =
     [\<lparr> seg_id = 7, seg_vals = cleanData Map.empty, seg_attrs = None \<rparr>] \<and>
   \<not> list_all (\<lambda>r. (\<lambda>v. False) (server_values r)) [cleanData Map.empty] \<and>
   committed (snd (transaction (\<lambda>v. False) server_values [cleanData Map.empty]
       (connect \<lparr> road_segments = [\<lparr> seg_id = 3, seg_vals = cleanData Map.empty, seg_attrs = None \<rparr>], next_id = 7 \<rparr>))) =
     [\<lparr> seg_id = 3, seg_vals = cleanData Map.empty, seg_attrs = None \<rparr>]"
  using bulk_load_atomic [of "\<lambda>v. True" server_values "[cleanData Map.empty]" "\<lparr> road_segments = [], next_id = 7 \<rparr>"]
    bulk_load_atomic [of "\<lambda>v. False" server_values "[cleanData Map.empty]"
       "\<lparr> road_segments = [\<lparr> seg_id = 3, seg_vals = cleanData Map.empty, seg_attrs = None \<rparr>], next_id = 7 \<rparr>"]
  by (simp add: stored_rows_def store_def server_values_def)

section \<open>Cleaning and filtering: proofs\<close>

lemmas parse_defs = parseFloat_def parseInt_def strip_sign_def skip_space.simps space_len_def
  to_double_def is_radix_digit_def
  digit_of_def digits_value_def exponent_part_def pow10_def signed_def

lemma truthy_cleaned: "truthy_num (or_num a (Num 0)) = (or_num a (Num 0) \<noteq> Num 0)"
  by (cases a) (simp_all add: or_num_def)

text \<open>The migration script's \<open>processCSV\<close> keeps a row exactly when its four cleaned
  coordinates are all different from zero.\<close>

lemma migrate_keeps_four_nonzero:
  "migrate_processCSV (rows, None) =
     Inr (filter (\<lambda>c. x_value_bgn c \<noteq> Num 0 \<and> y_value_bgn c \<noteq> Num 0 \<and>
                      x_value_end c \<noteq> Num 0 \<and> y_value_end c \<noteq> Num 0)
            (map cleanData rows))"
proof -
  have "migrate_keeps (cleanData d) =
      (x_value_bgn (cleanData d) \<noteq> Num 0 \<and> y_value_bgn (cleanData d) \<noteq> Num 0 \<and>
       x_value_end (cleanData d) \<noteq> Num 0 \<and> y_value_end (cleanData d) \<noteq> Num 0)" for d
    by (simp add: migrate_keeps_def cleanData_def truthy_cleaned)
  then have "filter migrate_keeps (map cleanData rows) =
      filter (\<lambda>c. x_value_bgn c \<noteq> Num 0 \<and> y_value_bgn c \<noteq> Num 0 \<and>
                   x_value_end c \<noteq> Num 0 \<and> y_value_end c \<noteq> Num 0) (map cleanData rows)"
    by (intro filter_cong refl) auto
  then show ?thesis by (simp add: migrate_processCSV_def)
qed

text \<open>
  Claim C1. The claim asks that a row be kept exactly when all four coordinates are
  non-zero. The migration script's \<open>processCSV\<close> does that; the server's tests only the
  begin coordinates. On the row below (X_VALUE_END is 0) the server's \<open>processCSV\<close> keeps
  the row, \<open>loadCSVData\<close> stores it with \<open>x_value_end = 0\<close>, and the migration
  script's \<open>processCSV\<close> drops it.
\<close>

theorem server_keeps_zero_end_coordinate:
  "server_processCSV
     ([[''X_VALUE_BGN'' \<mapsto> ''-77.12'', ''Y_VALUE_BGN'' \<mapsto> ''39.72'',
        ''X_VALUE_END'' \<mapsto> ''0'', ''Y_VALUE_END'' \<mapsto> ''39.73'']], None) =
     Inr [cleanData [''X_VALUE_BGN'' \<mapsto> ''-77.12'', ''Y_VALUE_BGN'' \<mapsto> ''39.72'',
                     ''X_VALUE_END'' \<mapsto> ''0'', ''Y_VALUE_END'' \<mapsto> ''39.73'']] \<and>
   x_value_end (cleanData [''X_VALUE_BGN'' \<mapsto> ''-77.12'', ''Y_VALUE_BGN'' \<mapsto> ''39.72'',
                     ''X_VALUE_END'' \<mapsto> ''0'', ''Y_VALUE_END'' \<mapsto> ''39.73'']) = Num 0 \<and>
   map (\<lambda>r. x_value_end (seg_vals r))
     (road_segments (loadCSVData (\<lambda>v. True)
        (Some ([[''X_VALUE_BGN'' \<mapsto> ''-77.12'', ''Y_VALUE_BGN'' \<mapsto> ''39.72'',
                 ''X_VALUE_END'' \<mapsto> ''0'', ''Y_VALUE_END'' \<mapsto> ''39.73'']], None))
        \<lparr> road_segments = [], next_id = 1 \<rparr>)) = [Num 0] \<and>
   migrate_processCSV
     ([[''X_VALUE_BGN'' \<mapsto> ''-77.12'', ''Y_VALUE_BGN'' \<mapsto> ''39.72'',
        ''X_VALUE_END'' \<mapsto> ''0'', ''Y_VALUE_END'' \<mapsto> ''39.73'']], None) = Inr []"
proof -
  let ?row = "[''X_VALUE_BGN'' \<mapsto> ''-77.12'', ''Y_VALUE_BGN'' \<mapsto> ''39.72'',
               ''X_VALUE_END'' \<mapsto> ''0'', ''Y_VALUE_END'' \<mapsto> ''39.73''] :: raw_row"
  have xb: "x_value_bgn (cleanData ?row) = Num (- 1928 / 25)"
    by (simp add: cleanData_def or_num_def parse_defs)
  have yb: "y_value_bgn (cleanData ?row) = Num (993 / 25)"
    by (simp add: cleanData_def or_num_def parse_defs)
  have xe: "x_value_end (cleanData ?row) = Num 0"
    by (simp add: cleanData_def or_num_def parse_defs)
  have keep: "server_keeps (cleanData ?row)"
    by (simp add: server_keeps_def xb yb)
  have drop: "\<not> migrate_keeps (cleanData ?row)"
    by (simp add: migrate_keeps_def xe)
  have s: "server_processCSV ([?row], None) = Inr [cleanData ?row]"
    using keep by (simp add: server_processCSV_def)
  have m: "migrate_processCSV ([?row], None) = Inr []"
    using drop by (simp add: migrate_processCSV_def)
  have "road_segments (loadCSVData (\<lambda>v. True) (Some ([?row], None)) \<lparr> road_segments = [], next_id = 1 \<rparr>)
      = stored_rows 1 [server_values (cleanData ?row)]"
    using keep by (simp add: loadCSVData_def server_processCSV_def release_def load_table)
  then have l: "map (\<lambda>r. x_value_end (seg_vals r))
     (road_segments (loadCSVData (\<lambda>v. True) (Some ([?row], None)) \<lparr> road_segments = [], next_id = 1 \<rparr>)) = [Num 0]"
    by (simp add: stored_rows_def store_def server_values_def xe)
  from s xe l m show ?thesis by blast
qed

lemma or_num_zero:
  "or_num a (Num 0) \<noteq> NaN" "a = NaN \<Longrightarrow> or_num a (Num 0) = Num 0"
  by (cases a; simp add: or_num_def)+

lemma or_str_empty: "v = None \<or> v = Some [] \<Longrightarrow> or_str v [] = []"
  by (auto simp: or_str_def)

text \<open>
  Claim C9, as stated, fails for \<open>OBJECTID\<close>: it is a numeric column, and a value that
  does not parse becomes null, not zero.
\<close>

theorem objectid_becomes_null:
  "parseInt (Some ''abc'') = NaN \<and>
   objectid (cleanData [''OBJECTID'' \<mapsto> ''abc'']) = None \<and>
   objectid (cleanData [''OBJECTID'' \<mapsto> ''abc'']) \<noteq> Some (Num 0)"
  by (simp add: cleanData_def or_null_def parse_defs)

text \<open>
  Claim C9, amended. \<open>cleanData\<close> is defined on every row object (none of its
  operations throws). After it no numeric property is NaN; every \<open>parseFloat\<close> or
  \<open>parseInt\<close> column that does not parse is 0, except \<open>OBJECTID\<close>, which is null; every
  string column that is missing or empty is the empty string. (Whether the row is then
  kept is the coordinate test of \<open>processCSV\<close>, a separate step.)
\<close>

theorem cleaning_defaults:
  "(\<forall>(k, f) \<in> set float_columns.
      f (cleanData data) \<noteq> NaN \<and> (parseFloat (data k) = NaN \<longrightarrow> f (cleanData data) = Num 0)) \<and>
   (\<forall>(k, f) \<in> set int_columns.
      f (cleanData data) \<noteq> NaN \<and> (parseInt (data k) = NaN \<longrightarrow> f (cleanData data) = Num 0)) \<and>
   (parseInt (data ''OBJECTID'') = NaN \<longrightarrow> objectid (cleanData data) = None) \<and>
   (\<forall>(k, f) \<in> set string_columns.
      data k = None \<or> data k = Some [] \<longrightarrow> f (cleanData data) = [])"
proof (intro conjI)
  show "\<forall>(k, f) \<in> set float_columns.
      f (cleanData data) \<noteq> NaN \<and> (parseFloat (data k) = NaN \<longrightarrow> f (cleanData data) = Num 0)"
    by (simp add: float_columns_def cleanData_def or_num_zero)
  show "\<forall>(k, f) \<in> set int_columns.
      f (cleanData data) \<noteq> NaN \<and> (parseInt (data k) = NaN \<longrightarrow> f (cleanData data) = Num 0)"
    by (simp add: int_columns_def cleanData_def or_num_zero)
  show "parseInt (data ''OBJECTID'') = NaN \<longrightarrow> objectid (cleanData data) = None"
    by (simp add: cleanData_def or_null_def)
  show "\<forall>(k, f) \<in> set string_columns.
      data k = None \<or> data k = Some [] \<longrightarrow> f (cleanData data) = []"
    by (simp add: string_columns_def cleanData_def or_str_empty)
qed


theorem cleaning_defaults_witness:
  "parseFloat (([''OBJECTID'' \<mapsto> ''abc'', ''LANE_CNT'' \<mapsto> ''two'', ''ROUGH_INDX'' \<mapsto> ''n/a'', ''ST_RT_NO'' \<mapsto> []]) ''ROUGH_INDX'') = NaN \<and>
   rough_indx (cleanData ([''OBJECTID'' \<mapsto> ''abc'', ''LANE_CNT'' \<mapsto> ''two'', ''ROUGH_INDX'' \<mapsto> ''n/a'', ''ST_RT_NO'' \<mapsto> []])) = Num 0 \<and>
   parseInt (([''OBJECTID'' \<mapsto> ''abc'', ''LANE_CNT'' \<mapsto> ''two'', ''ROUGH_INDX'' \<mapsto> ''n/a'', ''ST_RT_NO'' \<mapsto> []]) ''LANE_CNT'') = NaN \<and>
   lane_cnt (cleanData ([''OBJECTID'' \<mapsto> ''abc'', ''LANE_CNT'' \<mapsto> ''two'', ''ROUGH_INDX'' \<mapsto> ''n/a'', ''ST_RT_NO'' \<mapsto> []])) = Num 0 \<and>
   parseInt (([''OBJECTID'' \<mapsto> ''abc'', ''LANE_CNT'' \<mapsto> ''two'', ''ROUGH_INDX'' \<mapsto> ''n/a'', ''ST_RT_NO'' \<mapsto> []]) ''OBJECTID'') = NaN \<and>
   objectid (cleanData ([''OBJECTID'' \<mapsto> ''abc'', ''LANE_CNT'' \<mapsto> ''two'', ''ROUGH_INDX'' \<mapsto> ''n/a'', ''ST_RT_NO'' \<mapsto> []])) = None \<and>
   ([''OBJECTID'' \<mapsto> ''abc'', ''LANE_CNT'' \<mapsto> ''two'', ''ROUGH_INDX'' \<mapsto> ''n/a'', ''ST_RT_NO'' \<mapsto> []]) ''ST_RT_NO'' = Some [] \<and>
   st_rt_no (cleanData ([''OBJECTID'' \<mapsto> ''abc'', ''LANE_CNT'' \<mapsto> ''two'', ''ROUGH_INDX'' \<mapsto> ''n/a'', ''ST_RT_NO'' \<mapsto> []])) = [] \<and>
   ([''OBJECTID'' \<mapsto> ''abc'', ''LANE_CNT'' \<mapsto> ''two'', ''ROUGH_INDX'' \<mapsto> ''n/a'', ''ST_RT_NO'' \<mapsto> []]) ''FAC_TYPE'' = None \<and>
   fac_type (cleanData ([''OBJECTID'' \<mapsto> ''abc'', ''LANE_CNT'' \<mapsto> ''two'', ''ROUGH_INDX'' \<mapsto> ''n/a'', ''ST_RT_NO'' \<mapsto> []])) = []"
proof -
  let ?d = "([''OBJECTID'' \<mapsto> ''abc'', ''LANE_CNT'' \<mapsto> ''two'', ''ROUGH_INDX'' \<mapsto> ''n/a'', ''ST_RT_NO'' \<mapsto> []]) :: raw_row"
  note c = cleaning_defaults [of ?d]
  have p1: "parseFloat (?d ''ROUGH_INDX'') = NaN" by (simp add: parse_defs)
  have p2: "parseInt (?d ''LANE_CNT'') = NaN" by (simp add: parse_defs)
  have p3: "parseInt (?d ''OBJECTID'') = NaN" by (simp add: parse_defs)
  have p4: "?d ''ST_RT_NO'' = Some []" by simp
  have p5: "?d ''FAC_TYPE'' = None" by simp
  have m1: "(''ROUGH_INDX'', rough_indx) \<in> set float_columns" by (simp add: float_columns_def)
  have m2: "(''LANE_CNT'', lane_cnt) \<in> set int_columns" by (simp add: int_columns_def)
  have m4: "(''ST_RT_NO'', st_rt_no) \<in> set string_columns" by (simp add: string_columns_def)
  have m5: "(''FAC_TYPE'', fac_type) \<in> set string_columns" by (simp add: string_columns_def)
  from c have c1: "\<forall>(k, f) \<in> set float_columns.
      f (cleanData ?d) \<noteq> NaN \<and> (parseFloat (?d k) = NaN \<longrightarrow> f (cleanData ?d) = Num 0)"
    by (elim conjE)
  from c have c2: "\<forall>(k, f) \<in> set int_columns.
      f (cleanData ?d) \<noteq> NaN \<and> (parseInt (?d k) = NaN \<longrightarrow> f (cleanData ?d) = Num 0)"
    by (elim conjE)
  from c have c3: "parseInt (?d ''OBJECTID'') = NaN \<longrightarrow> objectid (cleanData ?d) = None"
    by (elim conjE)
  from c have c4: "\<forall>(k, f) \<in> set string_columns.
      ?d k = None \<or> ?d k = Some [] \<longrightarrow> f (cleanData ?d) = []"
    by (elim conjE)
  from bspec [OF c1 m1] p1 have r1: "rough_indx (cleanData ?d) = Num 0"
    unfolding prod.case by (elim conjE impE)
  from bspec [OF c2 m2] p2 have r2: "lane_cnt (cleanData ?d) = Num 0"
    unfolding prod.case by (elim conjE impE)
  from c3 p3 have r3: "objectid (cleanData ?d) = None" by (elim impE)
  from bspec [OF c4 m4] p4 have r4: "st_rt_no (cleanData ?d) = []"
    unfolding prod.case by (elim impE) (rule disjI2)
  from bspec [OF c4 m5] p5 have r5: "fac_type (cleanData ?d) = []"
    unfolding prod.case by (elim impE) (rule disjI1)
  from p1 r1 p2 r2 p3 r3 p4 r4 p5 r5 show ?thesis by (intro conjI)
qed

section \<open>The upload handler: proofs\<close>

text \<open>
  Claim C2. The claim asks that an upload with a readable CSV file replace the table and
  answer with the count of rows loaded. The handler reads the unbound identifier \<open>db\<close>
  right after parsing the file, so every such request is answered 500 with the message
  of the ReferenceError and the table is left as it was; only the 400 answer to a request
  without a file is as the claim says.
\<close>

theorem upload_always_fails:
  "upload_handler accepts (Some (rows, None)) db = ((500, ErrorObj ''db is not defined''), db) \<and>
   upload_handler accepts None db = ((400, ErrorObj ''No file uploaded''), db)"
  by (simp add: upload_handler_def server_processCSV_def server_scope_def)


section \<open>The statistics: proofs\<close>

lemma statistics_step:
  "(case r of Inr rows \<Rightarrow> results(key \<mapsto> rows) | Inl e \<Rightarrow> results(key \<mapsto> [])) =
     results(key \<mapsto> (case r of Inr rows \<Rightarrow> rows | Inl e \<Rightarrow> []))"
  by (cases r) simp_all

lemma statistics_loop_lookup:
  "distinct (map fst qs) \<Longrightarrow> (key, query) \<in> set qs \<Longrightarrow>
   statistics_loop run qs results key = Some (case run query of Inr rows \<Rightarrow> rows | Inl e \<Rightarrow> [])"
proof (induction qs arbitrary: results)
  case Nil
  then show ?case by simp
next
  case (Cons kq qs)
  obtain k q where kq: "kq = (k, q)" by (cases kq)
  have other: "statistics_loop run qs m key = m key" if "key \<notin> fst ` set qs" for m
    using that
  proof (induction qs arbitrary: m)
    case Nil
    then show ?case by simp
  next
    case (Cons a qs)
    then show ?case by (cases a) (auto simp: statistics_step)
  qed
  show ?case
  proof (cases "(key, query) \<in> set qs")
    case True
    with Cons show ?thesis by (simp add: kq)
  next
    case False
    with Cons.prems have eq: "k = key" "q = query" by (auto simp: kq)
    with Cons.prems have "key \<notin> fst ` set qs" by (simp add: kq)
    from other [OF this] show ?thesis by (simp add: kq eq statistics_step)
  qed
qed

lemma statistics_loop_dom:
  "dom (statistics_loop run qs results) = dom results \<union> fst ` set qs"
proof (induction qs arbitrary: results)
  case Nil
  then show ?case by simp
next
  case (Cons kq qs)
  then show ?case by (cases kq) (auto simp: statistics_step)
qed

lemma statistics_keys:
  "map fst statistics_queries =
     [''total_segments'', ''total_miles'', ''by_fac_type'', ''by_surf_type'', ''by_condition'',
      ''by_district'']"
  by (simp add: statistics_queries_def)

text \<open>
  Claim C8. The statistics handler always answers 200 with an object whose keys are
  exactly the six statistic names; a key whose statement succeeded holds its rows, a key
  whose statement failed holds the empty array.
\<close>

theorem statistics_always_complete:
  "\<exists>results. statistics_handler run = (200, Rows results) \<and>
     dom results = {''total_segments'', ''total_miles'', ''by_fac_type'', ''by_surf_type'',
                    ''by_condition'', ''by_district''} \<and>
     (\<forall>(key, query) \<in> set statistics_queries.
        (\<forall>rows. run query = Inr rows \<longrightarrow> results key = Some rows) \<and>
        (\<forall>e. run query = Inl e \<longrightarrow> results key = Some []))"
proof (intro exI conjI)
  let ?results = "statistics_loop run statistics_queries Map.empty"
  show "statistics_handler run = (200, Rows ?results)"
    by (simp add: statistics_handler_def)
  have "dom ?results = set (map fst statistics_queries)"
    by (simp add: statistics_loop_dom)
  also have "\<dots> = {''total_segments'', ''total_miles'', ''by_fac_type'', ''by_surf_type'',
                    ''by_condition'', ''by_district''}"
    by (simp only: statistics_keys list.set)
  finally show "dom ?results = {''total_segments'', ''total_miles'', ''by_fac_type'', ''by_surf_type'',
                    ''by_condition'', ''by_district''}" .
  have d: "distinct (map fst statistics_queries)"
    by (simp add: statistics_keys)
  show "\<forall>(key, query) \<in> set statistics_queries.
        (\<forall>rows. run query = Inr rows \<longrightarrow> ?results key = Some rows) \<and>
        (\<forall>e. run query = Inl e \<longrightarrow> ?results key = Some [])"
  proof (intro ballI, clarify, intro conjI allI impI)
    fix key query rows
    assume "(key, query) \<in> set statistics_queries" "run query = Inr rows"
    then show "?results key = Some rows"
      using statistics_loop_lookup [OF d, of key query run Map.empty] by simp
  next
    fix key query e
    assume "(key, query) \<in> set statistics_queries" "run query = Inl e"
    then show "?results key = Some []"
      using statistics_loop_lookup [OF d, of key query run Map.empty] by simp
  qed
qed


theorem statistics_always_complete_witness:
  "\<exists>results. statistics_handler
       (\<lambda>q. if q = ''SELECT SUM(segment_miles) as total FROM road_segments''
             then Inl ''relation does not exist'' else Inr [q]) = (200, Rows results) \<and>
     results ''total_miles'' = Some [] \<and>
     results ''total_segments'' = Some [''SELECT COUNT(*) as count FROM road_segments'']"
proof -
  let ?run = "\<lambda>q. if q = ''SELECT SUM(segment_miles) as total FROM road_segments''
             then Inl ''relation does not exist'' else (Inr [q] :: error + string list)"
  have m1: "(''total_miles'', ''SELECT SUM(segment_miles) as total FROM road_segments'') \<in> set statistics_queries"
    by (simp add: statistics_queries_def)
  have m2: "(''total_segments'', ''SELECT COUNT(*) as count FROM road_segments'') \<in> set statistics_queries"
    by (simp add: statistics_queries_def)
  have r1: "?run ''SELECT SUM(segment_miles) as total FROM road_segments'' = Inl ''relation does not exist''"
    by simp
  have r2: "?run ''SELECT COUNT(*) as count FROM road_segments'' =
      Inr [''SELECT COUNT(*) as count FROM road_segments'']"
    by simp
  have ex: "\<exists>results. statistics_handler ?run = (200, Rows results) \<and>
     dom results = {''total_segments'', ''total_miles'', ''by_fac_type'', ''by_surf_type'',
                    ''by_condition'', ''by_district''} \<and>
     (\<forall>(key, query) \<in> set statistics_queries.
        (\<forall>rows. ?run query = Inr rows \<longrightarrow> results key = Some rows) \<and>
        (\<forall>e. ?run query = Inl e \<longrightarrow> results key = Some []))"
    by (rule statistics_always_complete)
  then obtain results where
    r: "statistics_handler ?run = (200, Rows results)" and
    each: "\<forall>(key, query) \<in> set statistics_queries.
        (\<forall>rows. ?run query = Inr rows \<longrightarrow> results key = Some rows) \<and>
        (\<forall>e. ?run query = Inl e \<longrightarrow> results key = Some [])"
    by (elim exE conjE)
  from bspec [OF each m1] r1 have a: "results ''total_miles'' = Some []"
    unfolding prod.case by (elim conjE allE [of _ "''relation does not exist''"] impE)
  from bspec [OF each m2] r2 have b: "results ''total_segments'' = Some [''SELECT COUNT(*) as count FROM road_segments'']"
    unfolding prod.case by (elim conjE allE [of _ "[''SELECT COUNT(*) as count FROM road_segments'']"] impE)
  from r a b show ?thesis by (intro exI conjI)
qed

section \<open>The heat map: proofs\<close>

text \<open>
  Claim C3. For every \<open>data_source\<close> (absent included), a \<open>type\<close> that is neither
  traffic nor age makes the handler send the very statement it sends for
  \<open>type=condition\<close>, so the response is the same, whatever the database answers; it is
  also the response to a request without \<open>type\<close>.
\<close>

theorem heatmap_unknown_type_is_condition:
  assumes "t \<noteq> ''traffic''" and "t \<noteq> ''age''"
  shows "heatmap_query t (default_to ds ''csv'') = heatmap_query ''condition'' (default_to ds ''csv'') \<and>
         heatmap_handler run \<lparr> q_type = Some t, q_data_source = ds \<rparr> =
           heatmap_handler run \<lparr> q_type = Some ''condition'', q_data_source = ds \<rparr> \<and>
         heatmap_handler run \<lparr> q_type = Some t, q_data_source = ds \<rparr> =
           heatmap_handler run \<lparr> q_type = None, q_data_source = ds \<rparr>"
  using assms by (simp add: heatmap_handler_def heatmap_query_def default_to_def)

theorem heatmap_unknown_type_is_condition_witness:
  "''bogus'' \<noteq> ''traffic'' \<and> ''bogus'' \<noteq> ''age'' \<and>
   heatmap_query ''bogus'' ''osm'' = heatmap_query ''condition'' ''osm'' \<and>
   heatmap_handler (pg_osm_heatmap id []) \<lparr> q_type = Some ''bogus'', q_data_source = Some ''osm'' \<rparr> =
     heatmap_handler (pg_osm_heatmap id []) \<lparr> q_type = Some ''condition'', q_data_source = Some ''osm'' \<rparr>"
  using heatmap_unknown_type_is_condition [of "''bogus''" "Some ''osm''" "pg_osm_heatmap id []"]
  by (simp add: default_to_def)






section \<open>The roads query: proofs\<close>

lemma clause_tests_append:
  "clause_tests cast ps (xs @ ys) =
     (case clause_tests cast ps xs of
        Inl e \<Rightarrow> Inl e
      | Inr ts \<Rightarrow>
          (case clause_tests cast ps ys of
             Inl e \<Rightarrow> Inl e
           | Inr us \<Rightarrow> Inr (ts @ us)))"
  by (induction xs) (auto split: sum.splits)

lemma placeholder_next:
  "placeholder (params @ p # extra) (length params + 1) = Some p"
  by (simp add: placeholder_def nth_append)

lemma placeholder_next2:
  "placeholder (params @ p # p' # extra) (length params + 2) = Some p'"
  by (simp add: placeholder_def nth_append)

lemma query_means_empty: "query_means cast ([], [], 0) (\<lambda>r. True)"
  by (simp add: query_means_def)

lemma add_filter_absent:
  assumes "v = None \<or> v = Some []"
  shows "add_filter col op v st = st"
  using assms by (auto simp: add_filter_def split: prod.splits)

lemma add_filter_present:
  assumes "s \<noteq> []"
  shows "add_filter col op (Some s) (clauses, params, n) =
           (clauses @ [(col, op, n + 1)], params @ [PStr s], n + 1)"
  using assms by (simp add: add_filter_def)

lemma query_means_add:
  assumes m: "query_means cast st P"
    and t: "\<And>s ps n. s \<noteq> [] \<Longrightarrow> v = Some s \<Longrightarrow> placeholder ps n = Some (PStr s) \<Longrightarrow>
              clause_test cast ps (col, op, n) = Inr F"
  shows "query_means cast (add_filter col op v st) (\<lambda>r. P r \<and> (v = None \<or> v = Some [] \<or> F r))"
proof (cases "v = None \<or> v = Some []")
  case True
  then have "(\<lambda>r. P r \<and> (v = None \<or> v = Some [] \<or> F r)) = P" by auto
  with m True show ?thesis by (simp add: add_filter_absent)
next
  case False
  then obtain s where v: "v = Some s" and s: "s \<noteq> []" by (cases v) auto
  obtain clauses params n where st: "st = (clauses, params, n)" by (cases st)
  from m obtain ts where n: "n = length params"
    and ts: "\<And>extra. clause_tests cast (params @ extra) clauses = Inr ts"
    and sem: "\<And>r. list_all (\<lambda>t. t r) ts = P r"
    by (auto simp: query_means_def st)
  have new: "clause_tests cast ((params @ [PStr s]) @ extra) (clauses @ [(col, op, n + 1)]) =
      Inr (ts @ [F])" for extra
  proof -
    have "placeholder (params @ PStr s # extra) (n + 1) = Some (PStr s)"
      unfolding n by (rule placeholder_next)
    from t [OF s v this] have "clause_test cast (params @ PStr s # extra) (col, op, n + 1) = Inr F" .
    moreover have "clause_tests cast (params @ PStr s # extra) clauses = Inr ts"
      using ts [of "PStr s # extra"] by simp
    ultimately show ?thesis by (simp add: clause_tests_append)
  qed
  have "query_means cast (clauses @ [(col, op, n + 1)], params @ [PStr s], n + 1)
      (\<lambda>r. P r \<and> (v = None \<or> v = Some [] \<or> F r))"
    unfolding query_means_def using new n sem v s by auto
  then show ?thesis by (simp add: st v add_filter_present [OF s])
qed

lemma query_fails_add:
  assumes "query_fails cast st"
  shows "query_fails cast (add_filter col op v st)"
proof (cases "v = None \<or> v = Some []")
  case True
  with assms show ?thesis by (simp add: add_filter_absent)
next
  case False
  then obtain s where v: "v = Some s" and s: "s \<noteq> []" by (cases v) auto
  obtain clauses params n where st: "st = (clauses, params, n)" by (cases st)
  from assms have e: "\<And>extra. isl (clause_tests cast (params @ extra) clauses)"
    by (auto simp: query_fails_def st)
  have "isl (clause_tests cast ((params @ [PStr s]) @ extra) (clauses @ [(col, op, n + 1)]))" for extra
    using e [of "PStr s # extra"] by (auto simp: clause_tests_append split: sum.splits)
  then have "query_fails cast (clauses @ [(col, op, n + 1)], params @ [PStr s], n + 1)"
    unfolding query_fails_def by auto
  then show ?thesis by (simp add: st v add_filter_present [OF s])
qed

lemma query_fails_bad:
  assumes m: "query_means cast st P" and v: "v = Some s" and s: "s \<noteq> []"
    and bad: "\<And>ps n. placeholder ps n = Some (PStr s) \<Longrightarrow> isl (clause_test cast ps (col, op, n))"
  shows "query_fails cast (add_filter col op v st)"
proof -
  obtain clauses params n where st: "st = (clauses, params, n)" by (cases st)
  from m obtain ts where n: "n = length params"
    and ts: "\<And>extra. clause_tests cast (params @ extra) clauses = Inr ts"
    by (auto simp: query_means_def st)
  have "isl (clause_tests cast ((params @ [PStr s]) @ extra) (clauses @ [(col, op, n + 1)]))" for extra
  proof -
    have "placeholder (params @ PStr s # extra) (n + 1) = Some (PStr s)"
      unfolding n by (rule placeholder_next)
    from bad [OF this] have "isl (clause_test cast (params @ PStr s # extra) (col, op, n + 1))" .
    moreover have "clause_tests cast (params @ PStr s # extra) clauses = Inr ts"
      using ts [of "PStr s # extra"] by simp
    ultimately show ?thesis by (auto simp: clause_tests_append split: sum.splits)
  qed
  then have "query_fails cast (clauses @ [(col, op, n + 1)], params @ [PStr s], n + 1)"
    unfolding query_fails_def by auto
  then show ?thesis by (simp add: st v add_filter_present [OF s])
qed

text \<open>One step of the construction: the query keeps its meaning when the new filter is
  accepted (\<open>g\<close>), and fails from then on when it is not.\<close>

lemma add_filter_state:
  assumes st: "if ok then query_means cast st P else query_fails cast st"
    and good: "\<And>s ps n. g \<Longrightarrow> v = Some s \<Longrightarrow> s \<noteq> [] \<Longrightarrow> placeholder ps n = Some (PStr s) \<Longrightarrow>
                 clause_test cast ps (col, op, n) = Inr F"
    and bad: "\<not> g \<Longrightarrow> \<exists>s. v = Some s \<and> s \<noteq> [] \<and>
                 (\<forall>ps n. placeholder ps n = Some (PStr s) \<longrightarrow> isl (clause_test cast ps (col, op, n)))"
  shows "if ok \<and> g
         then query_means cast (add_filter col op v st) (\<lambda>r. P r \<and> (v = None \<or> v = Some [] \<or> F r))
         else query_fails cast (add_filter col op v st)"
proof (cases ok)
  case False
  with st have "query_fails cast st" by simp
  then have "query_fails cast (add_filter col op v st)" by (rule query_fails_add)
  with False show ?thesis by simp
next
  case True
  with st have m: "query_means cast st P" by simp
  show ?thesis
  proof (cases g)
    case True
    have "query_means cast (add_filter col op v st) (\<lambda>r. P r \<and> (v = None \<or> v = Some [] \<or> F r))"
      using m good [OF True] by (rule query_means_add)
    with True \<open>ok\<close> show ?thesis by simp
  next
    case False
    from bad [OF False] obtain s where v: "v = Some s" and s: "s \<noteq> []"
      and b: "\<And>ps n. placeholder ps n = Some (PStr s) \<Longrightarrow> isl (clause_test cast ps (col, op, n))"
      by blast
    have "query_fails cast (add_filter col op v st)"
      using m v s b by (rule query_fails_bad)
    with False show ?thesis by simp
  qed
qed

lemma eq_clause_good:
  assumes "sendable v" and "v = Some s" and "s \<noteq> []" and "placeholder ps n = Some (PStr s)"
  shows "clause_test cast ps (FacType, Eq, n) = Inr (\<lambda>r. eq_filter v (fac_type r))"
    and "clause_test cast ps (SurfType, Eq, n) = Inr (\<lambda>r. eq_filter v (surf_type r))"
    and "clause_test cast ps (DistrictNo, Eq, n) = Inr (\<lambda>r. eq_filter v (district_no r))"
    and "clause_test cast ps (UrbanRural, Eq, n) = Inr (\<lambda>r. eq_filter v (urban_rural r))"
  using assms by (simp_all add: clause_test_def sendable_def eq_filter_def)

lemma nul_clause_bad:
  assumes "has_nul s" and "placeholder ps n = Some (PStr s)"
  shows "clause_test cast ps (col, op, n) = Inl nul_error"
  using assms by (simp add: clause_test_def)

lemma eq_clause_bad:
  assumes "\<not> sendable v"
  shows "\<exists>s. v = Some s \<and> s \<noteq> [] \<and>
           (\<forall>ps n. placeholder ps n = Some (PStr s) \<longrightarrow> isl (clause_test cast ps (col, op, n)))"
proof -
  from assms obtain s where v: "v = Some s" and n: "has_nul s"
    by (auto simp: sendable_def split: option.splits)
  from n have "s \<noteq> []" by (auto simp: has_nul_def)
  with v n show ?thesis by (auto simp: nul_clause_bad)
qed

lemma bound_clause_good:
  assumes "readable cast v" and "v = Some s" and "s \<noteq> []" and "placeholder ps n = Some (PStr s)"
  shows "clause_test cast ps (RoughIndx, Ge, n) = Inr (\<lambda>r. ge_filter cast v (rough_indx r))"
    and "clause_test cast ps (RoughIndx, Le, n) = Inr (\<lambda>r. le_filter cast v (rough_indx r))"
proof -
  from assms have nn: "\<not> has_nul s" and "\<not> isl (cast s)" by (simp_all add: readable_def)
  then obtain x where x: "cast s = Inr x" by (cases "cast s") auto
  from assms nn x show "clause_test cast ps (RoughIndx, Ge, n) = Inr (\<lambda>r. ge_filter cast v (rough_indx r))"
    by (simp add: clause_test_def ge_filter_def)
  from assms nn x show "clause_test cast ps (RoughIndx, Le, n) = Inr (\<lambda>r. le_filter cast v (rough_indx r))"
    by (simp add: clause_test_def le_filter_def)
qed

lemma bound_clause_bad:
  assumes "\<not> readable cast v"
  shows "\<exists>s. v = Some s \<and> s \<noteq> [] \<and>
           (\<forall>ps n. placeholder ps n = Some (PStr s) \<longrightarrow> isl (clause_test cast ps (RoughIndx, Ge, n)))"
    and "\<exists>s. v = Some s \<and> s \<noteq> [] \<and>
           (\<forall>ps n. placeholder ps n = Some (PStr s) \<longrightarrow> isl (clause_test cast ps (RoughIndx, Le, n)))"
proof -
  from assms obtain s where v: "v = Some s" and s: "s \<noteq> []" and b: "has_nul s \<or> isl (cast s)"
    by (auto simp: readable_def split: option.splits if_splits)
  have "isl (clause_test cast ps (RoughIndx, Ge, n))" if "placeholder ps n = Some (PStr s)" for ps n
    using that b by (auto simp: clause_test_def split: sum.splits)
  with v s show "\<exists>s. v = Some s \<and> s \<noteq> [] \<and>
           (\<forall>ps n. placeholder ps n = Some (PStr s) \<longrightarrow> isl (clause_test cast ps (RoughIndx, Ge, n)))"
    by blast
  have "isl (clause_test cast ps (RoughIndx, Le, n))" if "placeholder ps n = Some (PStr s)" for ps n
    using that b by (auto simp: clause_test_def split: sum.splits)
  with v s show "\<exists>s. v = Some s \<and> s \<noteq> [] \<and>
           (\<forall>ps n. placeholder ps n = Some (PStr s) \<longrightarrow> isl (clause_test cast ps (RoughIndx, Le, n)))"
    by blast
qed

lemma roads_query_state:
  fixes q :: roads_params
  shows "if filters_accepted cast q
         then query_means cast
           (add_filter RoughIndx Le (q_max_condition q)
             (add_filter RoughIndx Ge (q_min_condition q)
               (add_filter UrbanRural Eq (q_urban_rural q)
                 (add_filter DistrictNo Eq (q_district_no q)
                   (add_filter SurfType Eq (q_surf_type q)
                     (add_filter FacType Eq (q_fac_type q) ([], [], 0)))))))
           (matches cast q)
         else query_fails cast
           (add_filter RoughIndx Le (q_max_condition q)
             (add_filter RoughIndx Ge (q_min_condition q)
               (add_filter UrbanRural Eq (q_urban_rural q)
                 (add_filter DistrictNo Eq (q_district_no q)
                   (add_filter SurfType Eq (q_surf_type q)
                     (add_filter FacType Eq (q_fac_type q) ([], [], 0)))))))"
proof -
  let ?s1 = "add_filter FacType Eq (q_fac_type q) ([], [], 0)"
  let ?s2 = "add_filter SurfType Eq (q_surf_type q) ?s1"
  let ?s3 = "add_filter DistrictNo Eq (q_district_no q) ?s2"
  let ?s4 = "add_filter UrbanRural Eq (q_urban_rural q) ?s3"
  let ?s5 = "add_filter RoughIndx Ge (q_min_condition q) ?s4"
  let ?s6 = "add_filter RoughIndx Le (q_max_condition q) ?s5"
  let ?g1 = "True \<and> sendable (q_fac_type q)"
  let ?g2 = "?g1 \<and> sendable (q_surf_type q)"
  let ?g3 = "?g2 \<and> sendable (q_district_no q)"
  let ?g4 = "?g3 \<and> sendable (q_urban_rural q)"
  let ?g5 = "?g4 \<and> readable cast (q_min_condition q)"
  let ?g6 = "?g5 \<and> readable cast (q_max_condition q)"
  let ?P1 = "\<lambda>r. True \<and> (q_fac_type q = None \<or> q_fac_type q = Some [] \<or> eq_filter (q_fac_type q) (fac_type r))"
  let ?P2 = "\<lambda>r. ?P1 r \<and> (q_surf_type q = None \<or> q_surf_type q = Some [] \<or> eq_filter (q_surf_type q) (surf_type r))"
  let ?P3 = "\<lambda>r. ?P2 r \<and> (q_district_no q = None \<or> q_district_no q = Some [] \<or> eq_filter (q_district_no q) (district_no r))"
  let ?P4 = "\<lambda>r. ?P3 r \<and> (q_urban_rural q = None \<or> q_urban_rural q = Some [] \<or> eq_filter (q_urban_rural q) (urban_rural r))"
  let ?P5 = "\<lambda>r. ?P4 r \<and> (q_min_condition q = None \<or> q_min_condition q = Some [] \<or> ge_filter cast (q_min_condition q) (rough_indx r))"
  let ?P6 = "\<lambda>r. ?P5 r \<and> (q_max_condition q = None \<or> q_max_condition q = Some [] \<or> le_filter cast (q_max_condition q) (rough_indx r))"
  have eqf: "(v = None \<or> v = Some [] \<or> eq_filter v x) = eq_filter v x" for v x
    by (auto simp: eq_filter_def split: option.splits)
  have gef: "(v = None \<or> v = Some [] \<or> ge_filter cast v x) = ge_filter cast v x" for v x
    by (auto simp: ge_filter_def split: option.splits)
  have lef: "(v = None \<or> v = Some [] \<or> le_filter cast v x) = le_filter cast v x" for v x
    by (auto simp: le_filter_def split: option.splits)
  have m0: "if True then query_means cast ([], [], 0) (\<lambda>r. True) else query_fails cast ([], [], 0)"
    by (simp add: query_means_empty)
  have m1: "if ?g1 then query_means cast ?s1 ?P1 else query_fails cast ?s1"
    by (rule add_filter_state [OF m0 eq_clause_good(1) eq_clause_bad])
  have m2: "if ?g2 then query_means cast ?s2 ?P2 else query_fails cast ?s2"
    by (rule add_filter_state [OF m1 eq_clause_good(2) eq_clause_bad])
  have m3: "if ?g3 then query_means cast ?s3 ?P3 else query_fails cast ?s3"
    by (rule add_filter_state [OF m2 eq_clause_good(3) eq_clause_bad])
  have m4: "if ?g4 then query_means cast ?s4 ?P4 else query_fails cast ?s4"
    by (rule add_filter_state [OF m3 eq_clause_good(4) eq_clause_bad])
  have m5: "if ?g5 then query_means cast ?s5 ?P5 else query_fails cast ?s5"
    by (rule add_filter_state [OF m4 bound_clause_good(1) bound_clause_bad(1)])
  have m6: "if ?g6 then query_means cast ?s6 ?P6 else query_fails cast ?s6"
    by (rule add_filter_state [OF m5 bound_clause_good(2) bound_clause_bad(2)])
  have g: "?g6 = filters_accepted cast q"
    by (simp add: filters_accepted_def)
  have P: "?P6 = matches cast q"
    by (simp add: matches_def fun_eq_iff eqf gef lef)
  from m6 show ?thesis
    unfolding g P .
qed

lemma roads_query_means:
  fixes q :: roads_params
  assumes "filters_accepted cast q"
  shows "query_means cast
           (add_filter RoughIndx Le (q_max_condition q)
             (add_filter RoughIndx Ge (q_min_condition q)
               (add_filter UrbanRural Eq (q_urban_rural q)
                 (add_filter DistrictNo Eq (q_district_no q)
                   (add_filter SurfType Eq (q_surf_type q)
                     (add_filter FacType Eq (q_fac_type q) ([], [], 0)))))))
           (matches cast q)"
  using roads_query_state [of cast q] assms by simp

lemma roads_query_fails:
  fixes q :: roads_params
  assumes "\<not> filters_accepted cast q"
  shows "query_fails cast
           (add_filter RoughIndx Le (q_max_condition q)
             (add_filter RoughIndx Ge (q_min_condition q)
               (add_filter UrbanRural Eq (q_urban_rural q)
                 (add_filter DistrictNo Eq (q_district_no q)
                   (add_filter SurfType Eq (q_surf_type q)
                     (add_filter FacType Eq (q_fac_type q) ([], [], 0)))))))"
  using roads_query_state [of cast q] assms by simp


text \<open>The response of the roads handler when the database takes every filter value: what
  LIMIT and OFFSET make of the matching rows in scan order.\<close>

lemma roads_handler_accepted:
  assumes acc: "filters_accepted cast q"
  shows "\<exists>sel params.
           roads_query q = (sel, params) \<and>
           placeholder params (limit_ph sel) = Some (PNum (parseInt (with_default (q_limit q) ''10000''))) \<and>
           placeholder params (offset_ph sel) = Some (PNum (parseInt (with_default (q_offset q) ''0''))) \<and>
           roads_handler scan cast q db =
             (case bind_bigint params (limit_ph sel) of
                Inl e \<Rightarrow> (500, ErrorObj e)
              | Inr l \<Rightarrow>
                  (case bind_bigint params (offset_ph sel) of
                     Inl e \<Rightarrow> (500, ErrorObj e)
                   | Inr ofs \<Rightarrow>
                       if ofs < 0 then (500, ErrorObj ''OFFSET must not be negative'')
                       else if l < 0 then (500, ErrorObj ''LIMIT must not be negative'')
                       else
                         (200, Rows (map (\<lambda>r. (seg_id r, seg_vals r))
                            (take (nat l) (drop (nat ofs)
                               (filter (\<lambda>r. matches cast q (seg_vals r)) (scan (road_segments db)))))))))"
proof -
  obtain clauses params n where st:
    "add_filter RoughIndx Le (q_max_condition q)
       (add_filter RoughIndx Ge (q_min_condition q)
         (add_filter UrbanRural Eq (q_urban_rural q)
           (add_filter DistrictNo Eq (q_district_no q)
             (add_filter SurfType Eq (q_surf_type q)
               (add_filter FacType Eq (q_fac_type q) ([], [], 0)))))) = (clauses, params, n)"
    by (rule prod_cases3)
  from roads_query_means [OF acc] obtain ts where n: "n = length params"
    and ts: "\<And>extra. clause_tests cast (params @ extra) clauses = Inr ts"
    and sem: "\<And>r. list_all (\<lambda>t. t r) ts = matches cast q r"
    unfolding st query_means_def by auto
  let ?l = "PNum (parseInt (with_default (q_limit q) ''10000''))"
  let ?o = "PNum (parseInt (with_default (q_offset q) ''0''))"
  let ?sel = "\<lparr> where_clauses = clauses, limit_ph = n + 1, offset_ph = n + 2 \<rparr>"
  have rq: "roads_query q = (?sel, params @ [?l, ?o])"
    by (simp add: roads_query_def st)
  have pl: "placeholder (params @ [?l, ?o]) (limit_ph ?sel) = Some ?l"
    using placeholder_next [of params ?l "[?o]"] by (simp add: n)
  have po: "placeholder (params @ [?l, ?o]) (offset_ph ?sel) = Some ?o"
    using placeholder_next2 [of params ?l ?o "[]"] by (simp add: n)
  have "roads_handler scan cast q db =
             (case bind_bigint (params @ [?l, ?o]) (limit_ph ?sel) of
                Inl e \<Rightarrow> (500, ErrorObj e)
              | Inr l \<Rightarrow>
                  (case bind_bigint (params @ [?l, ?o]) (offset_ph ?sel) of
                     Inl e \<Rightarrow> (500, ErrorObj e)
                   | Inr ofs \<Rightarrow>
                       if ofs < 0 then (500, ErrorObj ''OFFSET must not be negative'')
                       else if l < 0 then (500, ErrorObj ''LIMIT must not be negative'')
                       else
                         (200, Rows (map (\<lambda>r. (seg_id r, seg_vals r))
                            (take (nat l) (drop (nat ofs)
                               (filter (\<lambda>r. matches cast q (seg_vals r)) (scan (road_segments db)))))))))"
    by (simp add: roads_handler_def rq pg_select_roads_def ts sem split: sum.splits)
  with rq pl po show ?thesis by blast
qed

lemma roads_handler_refused:
  assumes "\<not> filters_accepted cast q"
  shows "\<exists>e. roads_handler scan cast q db = (500, ErrorObj e)"
proof -
  obtain clauses params n where st:
    "add_filter RoughIndx Le (q_max_condition q)
       (add_filter RoughIndx Ge (q_min_condition q)
         (add_filter UrbanRural Eq (q_urban_rural q)
           (add_filter DistrictNo Eq (q_district_no q)
             (add_filter SurfType Eq (q_surf_type q)
               (add_filter FacType Eq (q_fac_type q) ([], [], 0)))))) = (clauses, params, n)"
    by (rule prod_cases3)
  let ?l = "PNum (parseInt (with_default (q_limit q) ''10000''))"
  let ?o = "PNum (parseInt (with_default (q_offset q) ''0''))"
  from roads_query_fails [OF assms] have
    "isl (clause_tests cast (params @ [?l, ?o]) clauses)"
    unfolding st query_fails_def by simp
  then obtain e where "clause_tests cast (params @ [?l, ?o]) clauses = Inl e"
    by (cases "clause_tests cast (params @ [?l, ?o]) clauses") auto
  then show ?thesis
    by (simp add: roads_handler_def roads_query_def st pg_select_roads_def)
qed

lemma bind_bigint_nat:
  assumes "placeholder params n = Some (PNum (Num (of_nat k)))" and "k < 2 ^ 53"
  shows "bind_bigint params n = Inr (int k)"
proof -
  from assms(2) have "(of_nat k :: rat) < of_nat (2 ^ 53)"
    by (simp only: of_nat_less_iff)
  then have hi: "\<not> 2 ^ 63 - 1 < (of_nat k :: rat)"
    by simp
  have lo: "\<not> (of_nat k :: rat) < - (2 ^ 63)"
  proof -
    have "(0 :: rat) \<le> of_nat k" by simp
    moreover have "- (2 ^ 63) < (0 :: rat)" by simp
    ultimately show ?thesis by linarith
  qed
  have fl: "\<lfloor>of_nat k :: rat\<rfloor> = int k" by simp
  have "(of_nat k :: rat) = of_int \<lfloor>of_nat k :: rat\<rfloor>" by simp
  with assms(1) hi lo fl show ?thesis
    unfolding bind_bigint_def by simp
qed

lemma roads_handler_page:
  assumes lmt: "parseInt (with_default (q_limit q) ''10000'') = Num (of_nat lmt)"
    and ofs: "parseInt (with_default (q_offset q) ''0'') = Num (of_nat ofs)"
    and small: "lmt < 2 ^ 53" "ofs < 2 ^ 53"
    and acc: "filters_accepted cast q"
  shows "roads_handler scan cast q db =
           (200, Rows (map (\<lambda>r. (seg_id r, seg_vals r))
                    (take lmt (drop ofs
                       (filter (\<lambda>r. matches cast q (seg_vals r)) (scan (road_segments db)))))))"
proof -
  from roads_handler_accepted [OF acc, of scan db] obtain sel params where
    rq: "roads_query q = (sel, params)" and
    pl: "placeholder params (limit_ph sel) = Some (PNum (parseInt (with_default (q_limit q) ''10000'')))" and
    po: "placeholder params (offset_ph sel) = Some (PNum (parseInt (with_default (q_offset q) ''0'')))" and
    h: "roads_handler scan cast q db =
             (case bind_bigint params (limit_ph sel) of
                Inl e \<Rightarrow> (500, ErrorObj e)
              | Inr l \<Rightarrow>
                  (case bind_bigint params (offset_ph sel) of
                     Inl e \<Rightarrow> (500, ErrorObj e)
                   | Inr ofs \<Rightarrow>
                       if ofs < 0 then (500, ErrorObj ''OFFSET must not be negative'')
                       else if l < 0 then (500, ErrorObj ''LIMIT must not be negative'')
                       else
                         (200, Rows (map (\<lambda>r. (seg_id r, seg_vals r))
                            (take (nat l) (drop (nat ofs)
                               (filter (\<lambda>r. matches cast q (seg_vals r)) (scan (road_segments db)))))))))"
    by (elim exE conjE)
  have rl: "bind_bigint params (limit_ph sel) = Inr (int lmt)"
    using pl small(1) by (simp add: lmt bind_bigint_nat)
  have ro: "bind_bigint params (offset_ph sel) = Inr (int ofs)"
    using po small(2) by (simp add: ofs bind_bigint_nat)
  show ?thesis
    by (simp add: h rl ro)
qed

lemma roads_handler_rows_match:
  assumes ok: "roads_handler scan cast q db = (200, Rows rows)" and mem: "(i, r) \<in> set rows"
  shows "matches cast q r \<and> (\<exists>x \<in> set (scan (road_segments db)). i = seg_id x \<and> r = seg_vals x)"
proof -
  have acc: "filters_accepted cast q"
  proof (rule ccontr)
    assume "\<not> ?thesis"
    from roads_handler_refused [OF this, of scan db] ok show False by auto
  qed
  from roads_handler_accepted [OF acc, of scan db] obtain sel params where
    rq: "roads_query q = (sel, params)" and
    pl: "placeholder params (limit_ph sel) = Some (PNum (parseInt (with_default (q_limit q) ''10000'')))" and
    po: "placeholder params (offset_ph sel) = Some (PNum (parseInt (with_default (q_offset q) ''0'')))" and
    h: "roads_handler scan cast q db =
             (case bind_bigint params (limit_ph sel) of
                Inl e \<Rightarrow> (500, ErrorObj e)
              | Inr l \<Rightarrow>
                  (case bind_bigint params (offset_ph sel) of
                     Inl e \<Rightarrow> (500, ErrorObj e)
                   | Inr ofs \<Rightarrow>
                       if ofs < 0 then (500, ErrorObj ''OFFSET must not be negative'')
                       else if l < 0 then (500, ErrorObj ''LIMIT must not be negative'')
                       else
                         (200, Rows (map (\<lambda>r. (seg_id r, seg_vals r))
                            (take (nat l) (drop (nat ofs)
                               (filter (\<lambda>r. matches cast q (seg_vals r)) (scan (road_segments db)))))))))"
    by (elim exE conjE)
  from h ok obtain l ofs where
    rows: "rows = map (\<lambda>r. (seg_id r, seg_vals r))
                          (take l (drop ofs
                             (filter (\<lambda>r. matches cast q (seg_vals r)) (scan (road_segments db)))))"
    by (auto split: sum.splits if_splits)
  from mem obtain x where x: "x \<in> set (take l (drop ofs
            (filter (\<lambda>r. matches cast q (seg_vals r)) (scan (road_segments db)))))"
    and ix: "i = seg_id x" "r = seg_vals x"
    unfolding rows by auto
  from x have "x \<in> set (filter (\<lambda>r. matches cast q (seg_vals r)) (scan (road_segments db)))"
    by (meson in_set_takeD in_set_dropD)
  then have "matches cast q (seg_vals x)" and "x \<in> set (scan (road_segments db))" by simp_all
  with ix show ?thesis by auto
qed

lemma eq_filter_explicit:
  "eq_filter v x \<Longrightarrow> v = Some s \<and> s \<noteq> [] \<Longrightarrow> x = s"
  by (simp add: eq_filter_def)

lemma ge_filter_explicit:
  "ge_filter cast v x \<Longrightarrow> v = Some s \<and> s \<noteq> [] \<Longrightarrow> \<exists>lo. cast s = Inr lo \<and> pg_le lo x"
  by (simp add: ge_filter_def split: sum.splits)

lemma le_filter_explicit:
  "le_filter cast v x \<Longrightarrow> v = Some s \<and> s \<noteq> [] \<Longrightarrow> \<exists>hi. cast s = Inr hi \<and> pg_le x hi"
  by (simp add: le_filter_def split: sum.splits)

lemma matches_explicit:
  assumes "matches cast q r"
  shows "(\<forall>s. q_fac_type q = Some s \<and> s \<noteq> [] \<longrightarrow> fac_type r = s) \<and>
         (\<forall>s. q_surf_type q = Some s \<and> s \<noteq> [] \<longrightarrow> surf_type r = s) \<and>
         (\<forall>s. q_district_no q = Some s \<and> s \<noteq> [] \<longrightarrow> district_no r = s) \<and>
         (\<forall>s. q_urban_rural q = Some s \<and> s \<noteq> [] \<longrightarrow> urban_rural r = s) \<and>
         (\<forall>s. q_min_condition q = Some s \<and> s \<noteq> [] \<longrightarrow>
              (\<exists>x. cast s = Inr x \<and> pg_le x (rough_indx r))) \<and>
         (\<forall>s. q_max_condition q = Some s \<and> s \<noteq> [] \<longrightarrow>
              (\<exists>x. cast s = Inr x \<and> pg_le (rough_indx r) x))"
proof -
  from assms have f: "eq_filter (q_fac_type q) (fac_type r)"
    and s: "eq_filter (q_surf_type q) (surf_type r)"
    and d: "eq_filter (q_district_no q) (district_no r)"
    and u: "eq_filter (q_urban_rural q) (urban_rural r)"
    and lo: "ge_filter cast (q_min_condition q) (rough_indx r)"
    and hi: "le_filter cast (q_max_condition q) (rough_indx r)"
    by (simp_all add: matches_def)
  show ?thesis
  proof (intro conjI allI impI)
    fix t assume "q_fac_type q = Some t \<and> t \<noteq> []"
    with f show "fac_type r = t" by (rule eq_filter_explicit)
  next
    fix t assume "q_surf_type q = Some t \<and> t \<noteq> []"
    with s show "surf_type r = t" by (rule eq_filter_explicit)
  next
    fix t assume "q_district_no q = Some t \<and> t \<noteq> []"
    with d show "district_no r = t" by (rule eq_filter_explicit)
  next
    fix t assume "q_urban_rural q = Some t \<and> t \<noteq> []"
    with u show "urban_rural r = t" by (rule eq_filter_explicit)
  next
    fix t assume "q_min_condition q = Some t \<and> t \<noteq> []"
    with lo show "\<exists>x. cast t = Inr x \<and> pg_le x (rough_indx r)" by (rule ge_filter_explicit)
  next
    fix t assume "q_max_condition q = Some t \<and> t \<noteq> []"
    with hi show "\<exists>x. cast t = Inr x \<and> pg_le (rough_indx r) x" by (rule le_filter_explicit)
  qed
qed


lemmas roads_eval = roads_handler_def roads_query_def add_filter_def with_default_def
  pg_select_roads_def clause_test_def placeholder_def bind_bigint_def has_nul_def nul_error_def
  dq_def parse_defs

text \<open>
  Claim C6, as stated, fails on several counts. The query has no ORDER BY: on the same
  table the same request (\<open>limit=1\<close>) is answered with row 1 under one scan order and
  with row 2 under another, so no sort order fixes the page. A \<open>limit\<close> that
  \<open>parseInt\<close> cannot read reaches the database as NaN: the statement fails and the
  response is a 500 error object, not an array. So is the response when the database
  cannot read \<open>min_condition\<close> as a number (\<open>min_condition=abc\<close>), and when a text
  filter holds a NUL byte (\<open>fac_type=%00\<close>).
\<close>

theorem roads_order_not_fixed:
  "roads_handler id (\<lambda>s. Inl (''invalid input syntax for type numeric: '' @ dq s))
     \<lparr> q_fac_type = None, q_surf_type = None, q_district_no = None, q_urban_rural = None,
       q_min_condition = None, q_max_condition = None, q_limit = Some ''1'', q_offset = None \<rparr>
     \<lparr> road_segments =
         [\<lparr> seg_id = 1, seg_vals = cleanData Map.empty, seg_attrs = None \<rparr>,
          \<lparr> seg_id = 2, seg_vals = cleanData Map.empty, seg_attrs = None \<rparr>],
       next_id = 3 \<rparr> = (200, Rows [(1, cleanData Map.empty)]) \<and>
   roads_handler rev (\<lambda>s. Inl (''invalid input syntax for type numeric: '' @ dq s))
     \<lparr> q_fac_type = None, q_surf_type = None, q_district_no = None, q_urban_rural = None,
       q_min_condition = None, q_max_condition = None, q_limit = Some ''1'', q_offset = None \<rparr>
     \<lparr> road_segments =
         [\<lparr> seg_id = 1, seg_vals = cleanData Map.empty, seg_attrs = None \<rparr>,
          \<lparr> seg_id = 2, seg_vals = cleanData Map.empty, seg_attrs = None \<rparr>],
       next_id = 3 \<rparr> = (200, Rows [(2, cleanData Map.empty)]) \<and>
   roads_handler id (\<lambda>s. Inl (''invalid input syntax for type numeric: '' @ dq s))
     \<lparr> q_fac_type = None, q_surf_type = None, q_district_no = None, q_urban_rural = None,
       q_min_condition = None, q_max_condition = None, q_limit = Some ''abc'', q_offset = None \<rparr>
     \<lparr> road_segments =
         [\<lparr> seg_id = 1, seg_vals = cleanData Map.empty, seg_attrs = None \<rparr>,
          \<lparr> seg_id = 2, seg_vals = cleanData Map.empty, seg_attrs = None \<rparr>],
       next_id = 3 \<rparr> =
     (500, ErrorObj (''invalid input syntax for type bigint: '' @ [CHR 0x22] @ ''NaN'' @ [CHR 0x22])) \<and>
   roads_handler id (\<lambda>s. Inl (''invalid input syntax for type numeric: '' @ dq s))
     \<lparr> q_fac_type = None, q_surf_type = None, q_district_no = None, q_urban_rural = None,
       q_min_condition = Some ''abc'', q_max_condition = None, q_limit = Some ''1'', q_offset = None \<rparr>
     \<lparr> road_segments =
         [\<lparr> seg_id = 1, seg_vals = cleanData Map.empty, seg_attrs = None \<rparr>,
          \<lparr> seg_id = 2, seg_vals = cleanData Map.empty, seg_attrs = None \<rparr>],
       next_id = 3 \<rparr> =
     (500, ErrorObj (''invalid input syntax for type numeric: '' @ [CHR 0x22] @ ''abc'' @ [CHR 0x22])) \<and>
   roads_handler id (\<lambda>s. Inl (''invalid input syntax for type numeric: '' @ dq s))
     \<lparr> q_fac_type = Some [CHR 0x00], q_surf_type = None, q_district_no = None, q_urban_rural = None,
       q_min_condition = None, q_max_condition = None, q_limit = Some ''1'', q_offset = None \<rparr>
     \<lparr> road_segments =
         [\<lparr> seg_id = 1, seg_vals = cleanData Map.empty, seg_attrs = None \<rparr>,
          \<lparr> seg_id = 2, seg_vals = cleanData Map.empty, seg_attrs = None \<rparr>],
       next_id = 3 \<rparr> =
     (500, ErrorObj (''invalid byte sequence for encoding '' @ [CHR 0x22] @ ''UTF8'' @ [CHR 0x22] @ '': 0x00''))"
  by (simp add: roads_eval)

text \<open>
  Claim C7, as stated, fails for a filter supplied with an empty value: \<open>fac_type=\<close> is
  falsy, adds no clause, and a row whose \<open>fac_type\<close> is 1 is returned. It also fails for
  a filter value the database refuses, on a table where nothing could match: a bound it
  cannot read as a number (\<open>min_condition=abc\<close>) and a text filter with a NUL byte
  (\<open>fac_type=%00\<close>) are answered with a 500 error object, not with an empty array.
\<close>

theorem roads_empty_filter_ignored:
  "roads_handler id (\<lambda>s. Inl (''invalid input syntax for type numeric: '' @ dq s))
     \<lparr> q_fac_type = Some [], q_surf_type = None, q_district_no = None, q_urban_rural = None,
       q_min_condition = None, q_max_condition = None, q_limit = None, q_offset = None \<rparr>
     \<lparr> road_segments =
         [\<lparr> seg_id = 1, seg_vals = (cleanData Map.empty)\<lparr> fac_type := ''1'' \<rparr>, seg_attrs = None \<rparr>],
       next_id = 2 \<rparr> = (200, Rows [(1, (cleanData Map.empty)\<lparr> fac_type := ''1'' \<rparr>)]) \<and>
   fac_type ((cleanData Map.empty)\<lparr> fac_type := ''1'' \<rparr>) \<noteq> [] \<and>
   roads_handler id (\<lambda>s. Inl (''invalid input syntax for type numeric: '' @ dq s))
     \<lparr> q_fac_type = None, q_surf_type = None, q_district_no = None, q_urban_rural = None,
       q_min_condition = Some ''abc'', q_max_condition = None, q_limit = None, q_offset = None \<rparr>
     \<lparr> road_segments =
         [\<lparr> seg_id = 1, seg_vals = (cleanData Map.empty)\<lparr> fac_type := ''1'' \<rparr>, seg_attrs = None \<rparr>],
       next_id = 2 \<rparr> =
     (500, ErrorObj (''invalid input syntax for type numeric: '' @ [CHR 0x22] @ ''abc'' @ [CHR 0x22])) \<and>
   roads_handler id (\<lambda>s. Inl (''invalid input syntax for type numeric: '' @ dq s))
     \<lparr> q_fac_type = Some [CHR 0x00], q_surf_type = None, q_district_no = None, q_urban_rural = None,
       q_min_condition = None, q_max_condition = None, q_limit = None, q_offset = None \<rparr>
     \<lparr> road_segments =
         [\<lparr> seg_id = 1, seg_vals = (cleanData Map.empty)\<lparr> fac_type := ''1'' \<rparr>, seg_attrs = None \<rparr>],
       next_id = 2 \<rparr> =
     (500, ErrorObj (''invalid byte sequence for encoding '' @ [CHR 0x22] @ ''UTF8'' @ [CHR 0x22] @ '': 0x00''))"
  by (simp add: roads_eval)

text \<open>
  Claim C6, amended. Suppose \<open>parseInt\<close> reads \<open>limit\<close> and \<open>offset\<close> (defaults 10000
  and 0) as the whole numbers \<open>lmt\<close> and \<open>ofs\<close>, not negative and below \<open>2^53\<close>, and the
  database takes every filter value: no text filter holds a NUL byte, and each bound on
  \<open>rough_indx\<close> is absent, empty, or NUL-free text the database reads as a number. Then
  the response is 200 with at most \<open>lmt\<close> rows: the rows matching the filters, in the
  order the database produced them for this statement (\<open>scan\<close>), without the first
  \<open>ofs\<close> and cut after \<open>lmt\<close>.
\<close>

theorem roads_limit_offset:
  assumes lmt: "parseInt (with_default (q_limit q) ''10000'') = Num (of_nat lmt)"
    and ofs: "parseInt (with_default (q_offset q) ''0'') = Num (of_nat ofs)"
    and small: "lmt < 2 ^ 53" "ofs < 2 ^ 53"
    and acc: "filters_accepted cast q"
  shows "\<exists>rows. roads_handler scan cast q db = (200, Rows rows) \<and>
           rows = map (\<lambda>r. (seg_id r, seg_vals r))
                    (take lmt (drop ofs
                       (filter (\<lambda>r. matches cast q (seg_vals r)) (scan (road_segments db))))) \<and>
           length rows \<le> lmt \<and>
           (q_limit q = None \<longrightarrow> lmt = 10000) \<and>
           (q_offset q = None \<longrightarrow> ofs = 0)"
proof -
  let ?rows = "map (\<lambda>r. (seg_id r, seg_vals r))
                    (take lmt (drop ofs
                       (filter (\<lambda>r. matches cast q (seg_vals r)) (scan (road_segments db)))))"
  have resp: "roads_handler scan cast q db = (200, Rows ?rows)"
    using lmt ofs small acc by (rule roads_handler_page)
  have len: "length ?rows \<le> lmt" by simp
  have dl: "lmt = 10000" if "q_limit q = None"
  proof -
    have "parseInt (Some ''10000'') = Num 10000" by (simp add: parse_defs)
    with lmt that have "(of_nat lmt :: rat) = of_nat 10000" by (simp add: with_default_def)
    then show ?thesis by (simp only: of_nat_eq_iff)
  qed
  have d0: "ofs = 0" if "q_offset q = None"
  proof -
    have "parseInt (Some ''0'') = Num 0" by (simp add: parse_defs)
    with ofs that show ?thesis by (simp add: with_default_def)
  qed
  show ?thesis
  proof (intro exI [of _ ?rows] conjI impI)
    show "roads_handler scan cast q db = (200, Rows ?rows)" by (rule resp)
    show "?rows = ?rows" by (rule refl)
    show "length ?rows \<le> lmt" by (rule len)
    show "lmt = 10000" if "q_limit q = None" using that by (rule dl)
    show "ofs = 0" if "q_offset q = None" using that by (rule d0)
  qed
qed

theorem roads_limit_offset_witness:
  "parseInt (with_default (Some ''2'') ''10000'') = Num (of_nat 2) \<and>
   parseInt (with_default (Some ''1'') ''0'') = Num (of_nat 1) \<and>
   (2 :: nat) < 2 ^ 53 \<and> (1 :: nat) < 2 ^ 53 \<and>
   filters_accepted (\<lambda>s. if s = ''50'' then Inr (Num 50) else Inl (''invalid input syntax for type numeric: '' @ dq s))
     \<lparr> q_fac_type = Some ''1'', q_surf_type = None, q_district_no = None, q_urban_rural = None,
       q_min_condition = Some ''50'', q_max_condition = None, q_limit = Some ''2'', q_offset = Some ''1'' \<rparr> \<and>
   roads_handler id (\<lambda>s. if s = ''50'' then Inr (Num 50) else Inl (''invalid input syntax for type numeric: '' @ dq s))
     \<lparr> q_fac_type = Some ''1'', q_surf_type = None, q_district_no = None, q_urban_rural = None,
       q_min_condition = Some ''50'', q_max_condition = None, q_limit = Some ''2'', q_offset = Some ''1'' \<rparr>
     \<lparr> road_segments =
         [\<lparr> seg_id = 1, seg_vals = (cleanData Map.empty)\<lparr> fac_type := ''1'', rough_indx := Num 60 \<rparr>, seg_attrs = None \<rparr>,
          \<lparr> seg_id = 2, seg_vals = (cleanData Map.empty)\<lparr> fac_type := ''2'', rough_indx := Num 70 \<rparr>, seg_attrs = None \<rparr>,
          \<lparr> seg_id = 3, seg_vals = (cleanData Map.empty)\<lparr> fac_type := ''1'', rough_indx := Num 40 \<rparr>, seg_attrs = None \<rparr>,
          \<lparr> seg_id = 4, seg_vals = (cleanData Map.empty)\<lparr> fac_type := ''1'', rough_indx := Num 80 \<rparr>, seg_attrs = None \<rparr>],
       next_id = 5 \<rparr> =
     (200, Rows [(4, (cleanData Map.empty)\<lparr> fac_type := ''1'', rough_indx := Num 80 \<rparr>)])"
proof -
  let ?cast = "\<lambda>s. if s = ''50'' then Inr (Num 50) else Inl (''invalid input syntax for type numeric: '' @ dq s)"
  let ?q = "\<lparr> q_fac_type = Some ''1'', q_surf_type = None, q_district_no = None, q_urban_rural = None,
       q_min_condition = Some ''50'', q_max_condition = None, q_limit = Some ''2'', q_offset = Some ''1'' \<rparr>"
  let ?db = "\<lparr> road_segments =
         [\<lparr> seg_id = 1, seg_vals = (cleanData Map.empty)\<lparr> fac_type := ''1'', rough_indx := Num 60 \<rparr>, seg_attrs = None \<rparr>,
          \<lparr> seg_id = 2, seg_vals = (cleanData Map.empty)\<lparr> fac_type := ''2'', rough_indx := Num 70 \<rparr>, seg_attrs = None \<rparr>,
          \<lparr> seg_id = 3, seg_vals = (cleanData Map.empty)\<lparr> fac_type := ''1'', rough_indx := Num 40 \<rparr>, seg_attrs = None \<rparr>,
          \<lparr> seg_id = 4, seg_vals = (cleanData Map.empty)\<lparr> fac_type := ''1'', rough_indx := Num 80 \<rparr>, seg_attrs = None \<rparr>],
       next_id = 5 \<rparr>"
  have l: "parseInt (with_default (Some ''2'') ''10000'') = Num (of_nat 2)"
    by (simp add: with_default_def parse_defs)
  have o: "parseInt (with_default (Some ''1'') ''0'') = Num (of_nat 1)"
    by (simp add: with_default_def parse_defs)
  have r: "filters_accepted ?cast ?q"
    by (simp add: filters_accepted_def sendable_def readable_def has_nul_def)
  have b: "(2 :: nat) < 2 ^ 53" "(1 :: nat) < 2 ^ 53" by simp_all
  from roads_limit_offset [of ?q 2 1 ?cast id ?db] l o r b
  have "roads_handler id ?cast ?q ?db =
      (200, Rows (map (\<lambda>r. (seg_id r, seg_vals r))
                    (take 2 (drop 1
                       (filter (\<lambda>r. matches ?cast ?q (seg_vals r)) (id (road_segments ?db)))))))"
    by simp
  then have "roads_handler id ?cast ?q ?db =
      (200, Rows [(4, (cleanData Map.empty)\<lparr> fac_type := ''1'', rough_indx := Num 80 \<rparr>)])"
    by (simp add: matches_def eq_filter_def ge_filter_def le_filter_def pg_le_def)
  with l o r b show ?thesis by (intro conjI)
qed

text \<open>
  Claim C7, amended. Every row of a 200 response satisfies every filter that was supplied
  with a value that is not empty, all at once: the four equality filters and the two
  bounds on \<open>rough_indx\<close>. When \<open>limit\<close> and \<open>offset\<close> are readable, the database takes
  every filter value and no stored row matches, the response is 200 with the empty
  array. When the database does not take some filter value (a text filter with a NUL
  byte, a bound with a NUL byte, a bound it cannot read as a number), the response has
  status 500.
\<close>

theorem roads_filters_conjunctive:
  fixes q :: roads_params
  shows "(roads_handler scan cast q db = (200, Rows rows) \<longrightarrow>
            (\<forall>(i, r) \<in> set rows.
               (\<forall>s. q_fac_type q = Some s \<and> s \<noteq> [] \<longrightarrow> fac_type r = s) \<and>
               (\<forall>s. q_surf_type q = Some s \<and> s \<noteq> [] \<longrightarrow> surf_type r = s) \<and>
               (\<forall>s. q_district_no q = Some s \<and> s \<noteq> [] \<longrightarrow> district_no r = s) \<and>
               (\<forall>s. q_urban_rural q = Some s \<and> s \<noteq> [] \<longrightarrow> urban_rural r = s) \<and>
               (\<forall>s. q_min_condition q = Some s \<and> s \<noteq> [] \<longrightarrow>
                    (\<exists>x. cast s = Inr x \<and> pg_le x (rough_indx r))) \<and>
               (\<forall>s. q_max_condition q = Some s \<and> s \<noteq> [] \<longrightarrow>
                    (\<exists>x. cast s = Inr x \<and> pg_le (rough_indx r) x)))) \<and>
         (parseInt (with_default (q_limit q) ''10000'') = Num (of_nat lmt) \<and>
          parseInt (with_default (q_offset q) ''0'') = Num (of_nat ofs) \<and>
          lmt < 2 ^ 53 \<and> ofs < 2 ^ 53 \<and>
          filters_accepted cast q \<and>
          mset (scan (road_segments db)) = mset (road_segments db) \<and>
          (\<forall>x \<in> set (road_segments db). \<not> matches cast q (seg_vals x)) \<longrightarrow>
            roads_handler scan cast q db = (200, Rows [])) \<and>
         (\<not> filters_accepted cast q \<longrightarrow> fst (roads_handler scan cast q db) = 500)"
proof (intro conjI impI)
  assume ok: "roads_handler scan cast q db = (200, Rows rows)"
  show "\<forall>(i, r) \<in> set rows.
               (\<forall>s. q_fac_type q = Some s \<and> s \<noteq> [] \<longrightarrow> fac_type r = s) \<and>
               (\<forall>s. q_surf_type q = Some s \<and> s \<noteq> [] \<longrightarrow> surf_type r = s) \<and>
               (\<forall>s. q_district_no q = Some s \<and> s \<noteq> [] \<longrightarrow> district_no r = s) \<and>
               (\<forall>s. q_urban_rural q = Some s \<and> s \<noteq> [] \<longrightarrow> urban_rural r = s) \<and>
               (\<forall>s. q_min_condition q = Some s \<and> s \<noteq> [] \<longrightarrow>
                    (\<exists>x. cast s = Inr x \<and> pg_le x (rough_indx r))) \<and>
               (\<forall>s. q_max_condition q = Some s \<and> s \<noteq> [] \<longrightarrow>
                    (\<exists>x. cast s = Inr x \<and> pg_le (rough_indx r) x))"
  proof (intro ballI, clarify)
    fix i r
    assume "(i, r) \<in> set rows"
    from roads_handler_rows_match [OF ok this] have "matches cast q r" by simp
    then show "(\<forall>s. q_fac_type q = Some s \<and> s \<noteq> [] \<longrightarrow> fac_type r = s) \<and>
               (\<forall>s. q_surf_type q = Some s \<and> s \<noteq> [] \<longrightarrow> surf_type r = s) \<and>
               (\<forall>s. q_district_no q = Some s \<and> s \<noteq> [] \<longrightarrow> district_no r = s) \<and>
               (\<forall>s. q_urban_rural q = Some s \<and> s \<noteq> [] \<longrightarrow> urban_rural r = s) \<and>
               (\<forall>s. q_min_condition q = Some s \<and> s \<noteq> [] \<longrightarrow>
                    (\<exists>x. cast s = Inr x \<and> pg_le x (rough_indx r))) \<and>
               (\<forall>s. q_max_condition q = Some s \<and> s \<noteq> [] \<longrightarrow>
                    (\<exists>x. cast s = Inr x \<and> pg_le (rough_indx r) x))"
      by (rule matches_explicit)
  qed
next
  assume a: "parseInt (with_default (q_limit q) ''10000'') = Num (of_nat lmt) \<and>
          parseInt (with_default (q_offset q) ''0'') = Num (of_nat ofs) \<and>
          lmt < 2 ^ 53 \<and> ofs < 2 ^ 53 \<and>
          filters_accepted cast q \<and>
          mset (scan (road_segments db)) = mset (road_segments db) \<and>
          (\<forall>x \<in> set (road_segments db). \<not> matches cast q (seg_vals x))"
  then have "set (scan (road_segments db)) = set (road_segments db)"
    by (metis mset_eq_setD)
  with a have none: "filter (\<lambda>r. matches cast q (seg_vals r)) (scan (road_segments db)) = []"
    by (simp add: filter_empty_conv)
  from a have L: "parseInt (with_default (q_limit q) ''10000'') = Num (of_nat lmt)"
    and O: "parseInt (with_default (q_offset q) ''0'') = Num (of_nat ofs)"
    and small: "lmt < 2 ^ 53" "ofs < 2 ^ 53"
    and acc: "filters_accepted cast q"
    by simp_all
  from roads_handler_page [OF L O small acc, of scan db]
  show "roads_handler scan cast q db = (200, Rows [])"
    by (simp add: none)
next
  assume "\<not> filters_accepted cast q"
  from roads_handler_refused [OF this, of scan db] show "fst (roads_handler scan cast q db) = 500"
    by auto
qed

theorem roads_filters_conjunctive_witness:
  "roads_handler id (\<lambda>s. Inl (''invalid input syntax for type numeric: '' @ dq s))
     \<lparr> q_fac_type = Some ''1'', q_surf_type = Some ''52'', q_district_no = None, q_urban_rural = None,
       q_min_condition = None, q_max_condition = None, q_limit = None, q_offset = None \<rparr>
     \<lparr> road_segments =
         [\<lparr> seg_id = 1, seg_vals = (cleanData Map.empty)\<lparr> fac_type := ''1'', surf_type := ''52'' \<rparr>, seg_attrs = None \<rparr>,
          \<lparr> seg_id = 2, seg_vals = (cleanData Map.empty)\<lparr> fac_type := ''1'', surf_type := ''61'' \<rparr>, seg_attrs = None \<rparr>,
          \<lparr> seg_id = 3, seg_vals = (cleanData Map.empty)\<lparr> fac_type := ''2'', surf_type := ''52'' \<rparr>, seg_attrs = None \<rparr>],
       next_id = 4 \<rparr> =
     (200, Rows [(1, (cleanData Map.empty)\<lparr> fac_type := ''1'', surf_type := ''52'' \<rparr>)]) \<and>
   fac_type ((cleanData Map.empty)\<lparr> fac_type := ''1'', surf_type := ''52'' \<rparr>) = ''1'' \<and>
   surf_type ((cleanData Map.empty)\<lparr> fac_type := ''1'', surf_type := ''52'' \<rparr>) = ''52'' \<and>
   roads_handler id (\<lambda>s. Inl (''invalid input syntax for type numeric: '' @ dq s))
     \<lparr> q_fac_type = Some ''zzz'', q_surf_type = None, q_district_no = None, q_urban_rural = None,
       q_min_condition = None, q_max_condition = None, q_limit = None, q_offset = None \<rparr>
     \<lparr> road_segments =
         [\<lparr> seg_id = 1, seg_vals = (cleanData Map.empty)\<lparr> fac_type := ''1'', surf_type := ''52'' \<rparr>, seg_attrs = None \<rparr>],
       next_id = 2 \<rparr> = (200, Rows []) \<and>
   \<not> filters_accepted (\<lambda>s. Inl (''invalid input syntax for type numeric: '' @ dq s))
     \<lparr> q_fac_type = Some [CHR 0x00], q_surf_type = None, q_district_no = None, q_urban_rural = None,
       q_min_condition = None, q_max_condition = None, q_limit = None, q_offset = None \<rparr> \<and>
   fst (roads_handler id (\<lambda>s. Inl (''invalid input syntax for type numeric: '' @ dq s))
     \<lparr> q_fac_type = Some [CHR 0x00], q_surf_type = None, q_district_no = None, q_urban_rural = None,
       q_min_condition = None, q_max_condition = None, q_limit = None, q_offset = None \<rparr>
     \<lparr> road_segments = [], next_id = 1 \<rparr>) = 500"
proof -
  let ?cast = "\<lambda>s. Inl (''invalid input syntax for type numeric: '' @ dq s) :: error + jsnum"
  let ?v = "(cleanData Map.empty)\<lparr> fac_type := ''1'', surf_type := ''52'' \<rparr>"
  let ?q1 = "\<lparr> q_fac_type = Some ''1'', q_surf_type = Some ''52'', q_district_no = None, q_urban_rural = None,
       q_min_condition = None, q_max_condition = None, q_limit = None, q_offset = None \<rparr>"
  let ?d1 = "\<lparr> road_segments =
         [\<lparr> seg_id = 1, seg_vals = ?v, seg_attrs = None \<rparr>,
          \<lparr> seg_id = 2, seg_vals = (cleanData Map.empty)\<lparr> fac_type := ''1'', surf_type := ''61'' \<rparr>, seg_attrs = None \<rparr>,
          \<lparr> seg_id = 3, seg_vals = (cleanData Map.empty)\<lparr> fac_type := ''2'', surf_type := ''52'' \<rparr>, seg_attrs = None \<rparr>],
       next_id = 4 \<rparr>"
  let ?q2 = "\<lparr> q_fac_type = Some ''zzz'', q_surf_type = None, q_district_no = None, q_urban_rural = None,
       q_min_condition = None, q_max_condition = None, q_limit = None, q_offset = None \<rparr>"
  let ?d2 = "\<lparr> road_segments = [\<lparr> seg_id = 1, seg_vals = ?v, seg_attrs = None \<rparr>], next_id = 2 \<rparr>"
  let ?q3 = "\<lparr> q_fac_type = Some [CHR 0x00], q_surf_type = None, q_district_no = None, q_urban_rural = None,
       q_min_condition = None, q_max_condition = None, q_limit = None, q_offset = None \<rparr>"
  let ?d3 = "\<lparr> road_segments = [], next_id = 1 \<rparr>"
  have h1: "roads_handler id ?cast ?q1 ?d1 = (200, Rows [(1, ?v)])"
    by (simp add: roads_eval)
  from roads_filters_conjunctive [of id ?cast ?q1 ?d1 "[(1, ?v)]"] h1
  have "fac_type ?v = ''1'' \<and> surf_type ?v = ''52''"
    by simp
  then have a: "fac_type ?v = ''1''" and b: "surf_type ?v = ''52''" by simp_all
  have p: "parseInt (with_default (q_limit ?q2) ''10000'') = Num (of_nat 10000) \<and>
          parseInt (with_default (q_offset ?q2) ''0'') = Num (of_nat 0) \<and>
          (10000 :: nat) < 2 ^ 53 \<and> (0 :: nat) < 2 ^ 53 \<and>
          filters_accepted ?cast ?q2 \<and>
          mset (id (road_segments ?d2)) = mset (road_segments ?d2) \<and>
          (\<forall>x \<in> set (road_segments ?d2). \<not> matches ?cast ?q2 (seg_vals x))"
    by (simp add: with_default_def parse_defs filters_accepted_def sendable_def readable_def
        has_nul_def matches_def eq_filter_def)
  from roads_filters_conjunctive [of id ?cast ?q2 ?d2 _ 10000 0] p
  have h2: "roads_handler id ?cast ?q2 ?d2 = (200, Rows [])"
    by blast
  have u: "\<not> filters_accepted ?cast ?q3"
    by (simp add: filters_accepted_def sendable_def has_nul_def)
  from roads_filters_conjunctive [of id ?cast ?q3 ?d3] u
  have h3: "fst (roads_handler id ?cast ?q3 ?d3) = 500"
    by simp
  from h1 a b h2 u h3 show ?thesis by (intro conjI)
qed

end
